theory Spec2Isabelle
  imports Main "HOL-Library.Word"
begin

section \<open>Ponder's Lua binding: \<^verbatim>\<open>include/ponder/uses/detail/lua.hpp\<close>\<close>

text \<open>
  The header marshals calls between Lua and natively typed C++ callables. Its templates
  are selected by the static types of a call signature; the embedding turns each family
  of specialisations into one function over a datatype of type categories, with one
  equation per specialisation, in the order of the source.
\<close>

subsection \<open>The engine: values, stack and the C API the header calls\<close>

text \<open>
  The Lua engine is an external collaborator. The model follows the Lua 5.3 reference
  manual for the API functions the header calls. \<open>lua_Integer\<close> is the engine's 64-bit
  signed integer and \<open>lua_Number\<close> its IEEE-754 double. The engine's coercions between
  integers, floats and strings are parameters (\<open>engine\<close>). The engine does not run out
  of memory.
\<close>

type_synonym lua_Integer = "64 word"

text \<open>
  A binary floating-point value: a finite value \<open>Fin s m e\<close> is \<open>m * 2 ^ e\<close>, negated if
  \<open>s\<close>; the others are the infinities and a NaN. A finite value is held in normal form:
  \<open>m\<close> is odd, or the value is a zero, \<open>Fin s 0 0\<close>.
\<close>

datatype fp = Fin bool nat int | Inf bool | NaN

text \<open>
  A binary format: the number of bits of the significand, and the least and the greatest
  exponent of its last bit. \<^verbatim>\<open>float\<close> and \<^verbatim>\<open>double\<close> are \<open>binary32\<close> and \<open>binary64\<close>;
  \<^verbatim>\<open>long double\<close> is the 80-bit extended format of the x87 where the platform has it.
\<close>

record fp_format =
  precision :: nat
  emin :: int
  emax :: int

definition binary32 :: fp_format where
  "binary32 = \<lparr>precision = 24, emin = - 149, emax = 104\<rparr>"

definition binary64 :: fp_format where
  "binary64 = \<lparr>precision = 53, emin = - 1074, emax = 971\<rparr>"

definition x87_extended :: fp_format where
  "x87_extended = \<lparr>precision = 64, emin = - 16445, emax = 16320\<rparr>"

type_synonym lua_Number = fp

text \<open>The number of bits of a natural number, and the normal form of \<open>m * 2 ^ e\<close>.\<close>

function bit_length :: "nat \<Rightarrow> nat" where
  "bit_length m = (if m = 0 then 0 else Suc (bit_length (m div 2)))"
  by pat_completeness auto
termination
  by (relation "measure id") auto

declare bit_length.simps [simp del]

function normal :: "nat \<Rightarrow> int \<Rightarrow> nat \<times> int" where
  "normal m e = (if m = 0 then (0, 0) else if odd m then (m, e) else normal (m div 2) (e + 1))"
  by pat_completeness auto
termination
  by (relation "measure fst") auto

declare normal.simps [simp del]

text \<open>
  The conversion of a floating-point value to a format, as an IEEE-754 implementation
  converts: a value of the format is unchanged; any other value is rounded to the
  nearest value of the format, a tie to the one with the even significand, and to an
  infinity beyond the greatest finite value. \<open>round_half_even m k\<close> drops the last \<open>k\<close>
  bits of \<open>m\<close>.
\<close>

definition round_half_even :: "nat \<Rightarrow> nat \<Rightarrow> nat" where
  "round_half_even m k =
     (if 2 * (m mod 2 ^ k) > 2 ^ k \<or> (2 * (m mod 2 ^ k) = 2 ^ k \<and> odd (m div 2 ^ k))
      then m div 2 ^ k + 1 else m div 2 ^ k)"

definition finite_or_overflow :: "fp_format \<Rightarrow> bool \<Rightarrow> nat \<Rightarrow> int \<Rightarrow> fp" where
  "finite_or_overflow F s m e =
     (if int (bit_length m) + e > int (precision F) + emax F then Inf s
      else (case normal m e of (m', e') \<Rightarrow> Fin s m' e'))"

fun round_to :: "fp_format \<Rightarrow> fp \<Rightarrow> fp" where
  "round_to F (Fin s m e) =
     (if m = 0 then Fin s 0 0
      else if max (int (bit_length m) - int (precision F)) (emin F - e) \<le> 0
      then finite_or_overflow F s m e
      else finite_or_overflow F s
             (round_half_even m (nat (max (int (bit_length m) - int (precision F)) (emin F - e))))
             (e + max (int (bit_length m) - int (precision F)) (emin F - e)))"
| "round_to F (Inf s) = Inf s"
| "round_to F NaN = NaN"

text \<open>
  Native memory is a list of objects, an address is an index into it. The state of an
  object is abstracted to an integer; a class is named by its identifier.
\<close>

type_synonym addr = nat
type_synonym class_id = string
type_synonym obj = int
type_synonym memory = "obj list"

text \<open>
  Modelled from the spec: \<^verbatim>\<open>ponder::UserObject\<close> is declared outside this header. The
  specification describes it as a handle that either owns a copy of a value or holds a
  non-owning reference into native memory, plus a type tag for the downcast on read. An
  owning handle owns the cell \<open>target\<close> (its own copy); a non-owning handle points at the
  cell of the native object.
\<close>

record UserObject =
  owns :: bool
  tag :: class_id
  target :: addr

datatype lua_value =
    LNil
  | LBoolean bool
  | LInteger lua_Integer
  | LNumber lua_Number
  | LString string
  | LUserdata UserObject
  | LLightUserdata addr
  | LOther nat

text \<open>
  The stack frame of the running C function: index 1 is the first element. Every full
  userdata block on the stack holds a \<open>UserObject\<close>, as \<^verbatim>\<open>pushUserObject\<close> creates them.
\<close>

type_synonym lua_State = "lua_value list"

record engine =
  flt2int :: "lua_Number \<Rightarrow> lua_Integer option"
  str2int :: "string \<Rightarrow> lua_Integer option"
  int2flt :: "lua_Integer \<Rightarrow> lua_Number"
  str2flt :: "string \<Rightarrow> lua_Number option"
  int2str :: "lua_Integer \<Rightarrow> string"
  flt2str :: "lua_Number \<Rightarrow> string"

text \<open>
  How a call can end other than by returning. \<open>LuaError\<close> is the engine's error channel
  (\<^verbatim>\<open>luaL_error\<close> does not return: it unwinds to the engine's call boundary).
  \<open>UndefinedBehaviour\<close> is C++ undefined behaviour, such as a null pointer dereference.
  \<open>TypeMismatchOnHandleAccess\<close> is the failure of \<^verbatim>\<open>UserObject::ref\<close>.
  \<open>NotInstantiable\<close> marks a template with no specialisation for the type: the primary
  templates \<^verbatim>\<open>LuaValueWriter\<close> and \<^verbatim>\<open>LuaValueReader\<close> are empty, so such a
  signature does not compile.
\<close>

datatype failure =
    LuaError string
  | UndefinedBehaviour
  | TypeMismatchOnHandleAccess
  | NotInstantiable

text \<open>A valid index of the frame gives its slot; an index above the top is acceptable
  and reads as no value (\<^verbatim>\<open>LUA_TNONE\<close>). The engine takes an index as an \<^verbatim>\<open>int\<close>; the
  header passes a \<^verbatim>\<open>std::size_t\<close>. The indices of a dispatched call are the positions
  of its parameter list counted from 1, on which that conversion is the identity, and the
  model takes an index as that number.\<close>

definition index2value :: "lua_State \<Rightarrow> nat \<Rightarrow> lua_value option" where
  "index2value L idx = (if 1 \<le> idx \<and> idx \<le> length L then Some (L ! (idx - 1)) else None)"

text \<open>A C string ends at its first NUL character.\<close>

definition c_str :: "string \<Rightarrow> string" where
  "c_str s = takeWhile (\<lambda>c. c \<noteq> CHR 0x00) s"

definition lua_pushinteger :: "lua_State \<Rightarrow> lua_Integer \<Rightarrow> lua_State" where
  "lua_pushinteger L n = L @ [LInteger n]"

definition lua_pushnumber :: "lua_State \<Rightarrow> lua_Number \<Rightarrow> lua_State" where
  "lua_pushnumber L n = L @ [LNumber n]"

text \<open>\<^verbatim>\<open>lua_pushstring\<close> pushes a copy of the C string at the pointer, and nil for
  \<^verbatim>\<open>NULL\<close> (\<open>None\<close>).\<close>

definition lua_pushstring :: "lua_State \<Rightarrow> string option \<Rightarrow> lua_State" where
  "lua_pushstring L s = (case s of None \<Rightarrow> L @ [LNil] | Some cs \<Rightarrow> L @ [LString (c_str cs)])"

text \<open>\<^verbatim>\<open>lua_tointeger\<close>: the slot must be an integer, or a number or string convertible
  to an integer; otherwise the result is 0. It never raises an error.\<close>

definition lua_tointeger :: "engine \<Rightarrow> lua_State \<Rightarrow> nat \<Rightarrow> lua_Integer" where
  "lua_tointeger E L idx =
     (case index2value L idx of
        Some (LInteger i) \<Rightarrow> i
      | Some (LNumber n) \<Rightarrow> (case flt2int E n of Some i \<Rightarrow> i | None \<Rightarrow> 0)
      | Some (LString s) \<Rightarrow> (case str2int E s of Some i \<Rightarrow> i | None \<Rightarrow> 0)
      | _ \<Rightarrow> 0)"

text \<open>\<^verbatim>\<open>lua_tonumber\<close>: a number or a string convertible to a number; otherwise 0.\<close>

definition lua_tonumber :: "engine \<Rightarrow> lua_State \<Rightarrow> nat \<Rightarrow> lua_Number" where
  "lua_tonumber E L idx =
     (case index2value L idx of
        Some (LNumber n) \<Rightarrow> n
      | Some (LInteger i) \<Rightarrow> int2flt E i
      | Some (LString s) \<Rightarrow> (case str2flt E s of Some n \<Rightarrow> n | None \<Rightarrow> Fin False 0 0)
      | _ \<Rightarrow> Fin False 0 0)"

text \<open>\<^verbatim>\<open>lua_tostring\<close>: the slot must be a string or a number, otherwise the result is
  \<^verbatim>\<open>NULL\<close> (\<open>None\<close>). A number is converted in place: the slot itself becomes the
  string.\<close>

definition lua_tostring :: "engine \<Rightarrow> lua_State \<Rightarrow> nat \<Rightarrow> string option \<times> lua_State" where
  "lua_tostring E L idx =
     (case index2value L idx of
        Some (LString s) \<Rightarrow> (Some s, L)
      | Some (LInteger i) \<Rightarrow> (Some (int2str E i), L[idx - 1 := LString (int2str E i)])
      | Some (LNumber n) \<Rightarrow> (Some (flt2str E n), L[idx - 1 := LString (flt2str E n)])
      | _ \<Rightarrow> (None, L))"

text \<open>\<^verbatim>\<open>lua_isuserdata\<close> holds for a full userdata and for a light userdata.\<close>

definition lua_isuserdata :: "lua_State \<Rightarrow> nat \<Rightarrow> bool" where
  "lua_isuserdata L idx =
     (case index2value L idx of
        Some (LUserdata h) \<Rightarrow> True
      | Some (LLightUserdata p) \<Rightarrow> True
      | _ \<Rightarrow> False)"

text \<open>\<^verbatim>\<open>lua_touserdata\<close>: the block address of a full userdata, the pointer of a light
  userdata, otherwise \<^verbatim>\<open>NULL\<close>.\<close>

datatype pointer = Null | Block UserObject | Light addr

definition lua_touserdata :: "lua_State \<Rightarrow> nat \<Rightarrow> pointer" where
  "lua_touserdata L idx =
     (case index2value L idx of
        Some (LUserdata h) \<Rightarrow> Block h
      | Some (LLightUserdata p) \<Rightarrow> Light p
      | _ \<Rightarrow> Null)"

text \<open>The decimal numeral of \<^verbatim>\<open>%d\<close>.\<close>

function decimal :: "nat \<Rightarrow> string" where
  "decimal n =
     (if n < 10 then [''0123456789'' ! n]
      else decimal (n div 10) @ [''0123456789'' ! (n mod 10)])"
  by pat_completeness auto
termination
  by (relation "measure id") auto

text \<open>\<^verbatim>\<open>luaL_error(L, "Argument %d: expecting user data", index)\<close>. For a C function
  the engine adds no position prefix to the message.\<close>

definition luaL_error_expecting_user_data :: "nat \<Rightarrow> failure" where
  "luaL_error_expecting_user_data index =
     LuaError (''Argument '' @ decimal index @ '': expecting user data'')"

subsection \<open>Native types and values\<close>

text \<open>
  The static types the templates dispatch on. An integral type is \<^verbatim>\<open>bool\<close> or a signed
  or unsigned integer of a width in bits; a floating-point type is given by its format.
  \<open>TUserType c\<close> is a class for which
  \<^verbatim>\<open>detail::IsUserType\<close> holds; \<open>TUserObject\<close> is \<^verbatim>\<open>ponder::UserObject\<close> itself.
\<close>

datatype IntegralType = TBool | TSigned nat | TUnsigned nat

datatype ctype =
    TIntegral IntegralType
  | TFloatingPoint fp_format
  | TEnum
  | TStringView
  | TStdString
  | TUserType class_id
  | TUserObject

text \<open>
  A native value, one constructor per category. An integral value is its mathematical
  value, a floating-point value its value in the native floating type. An enumerator is
  held as the engine integer it is cast from: the \<^verbatim>\<open>static_cast\<close> to the enumeration is
  not modelled. \<open>NStringView d n\<close> is a view of \<open>n\<close> characters: \<open>d\<close> is \<open>None\<close> where
  \<^verbatim>\<open>data()\<close> is null, and otherwise the characters \<^verbatim>\<open>data()\<close> points at, which run up
  to the first NUL in memory. \<open>NObject c a\<close> is a reference to the object of class \<open>c\<close> at
  address \<open>a\<close>.
\<close>

datatype native =
    NInt int
  | NFloat fp
  | NEnum lua_Integer
  | NStringView "string option" nat
  | NString string
  | NObject class_id addr
  | NHandle UserObject

text \<open>The implicit conversions between a native integral type and \<^verbatim>\<open>lua_Integer\<close>:
  modular, and to \<^verbatim>\<open>bool\<close> the test against zero.\<close>

definition to_lua_Integer :: "int \<Rightarrow> lua_Integer" where
  "to_lua_Integer v = word_of_int v"

fun from_lua_Integer :: "IntegralType \<Rightarrow> lua_Integer \<Rightarrow> int" where
  "from_lua_Integer TBool i = (if i = 0 then 0 else 1)"
| "from_lua_Integer (TUnsigned w) i = sint i mod 2 ^ w"
| "from_lua_Integer (TSigned w) i = (sint i + 2 ^ (w - 1)) mod 2 ^ w - 2 ^ (w - 1)"

fun in_range :: "IntegralType \<Rightarrow> int \<Rightarrow> bool" where
  "in_range TBool v = (v = 0 \<or> v = 1)"
| "in_range (TUnsigned w) v = (0 \<le> v \<and> v < 2 ^ w)"
| "in_range (TSigned w) v = (0 < w \<and> - (2 ^ (w - 1)) \<le> v \<and> v < 2 ^ (w - 1))"

text \<open>The implicit conversions between a native floating type and \<^verbatim>\<open>lua_Number\<close>.\<close>

definition to_lua_Number :: "fp \<Rightarrow> lua_Number" where
  "to_lua_Number x = round_to binary64 x"

definition from_lua_Number :: "fp_format \<Rightarrow> lua_Number \<Rightarrow> fp" where
  "from_lua_Number F x = round_to F x"

text \<open>The finite values of a floating-point format, and a format all of whose values
  are values of another.\<close>

fun fp_in_range :: "fp_format \<Rightarrow> fp \<Rightarrow> bool" where
  "fp_in_range F (Fin s m e) =
     ((m = 0 \<and> e = 0) \<or>
      (odd m \<and> bit_length m \<le> precision F \<and> emin F \<le> e
       \<and> int (bit_length m) + e \<le> int (precision F) + emax F))"
| "fp_in_range F v = False"

definition format_within :: "fp_format \<Rightarrow> fp_format \<Rightarrow> bool" where
  "format_within F G =
     (precision F \<le> precision G \<and> emin G \<le> emin F
      \<and> int (precision F) + emax F \<le> int (precision G) + emax G)"

fun IsUserType :: "native \<Rightarrow> bool" where
  "IsUserType (NObject c a) = True"
| "IsUserType v = False"

fun IsUserObject :: "native \<Rightarrow> bool" where
  "IsUserObject (NHandle h) = True"
| "IsUserObject v = False"

subsection \<open>The handle's operations\<close>

text \<open>
  Modelled from the spec: \<^verbatim>\<open>UserObject::makeCopy\<close> is defined outside this header.
  The value is copied into a new owned slot: a fresh cell of memory, owned by the handle.
  Copying through a reference to no object is undefined.
\<close>

fun makeCopy :: "native \<Rightarrow> memory \<Rightarrow> failure + (UserObject \<times> memory)" where
  "makeCopy (NObject c a) M =
     (if a < length M
      then Inr (\<lparr>owns = True, tag = c, target = length M\<rparr>, M @ [M ! a])
      else Inl UndefinedBehaviour)"
| "makeCopy v M = Inl NotInstantiable"

text \<open>
  Modelled from the spec: \<^verbatim>\<open>UserObject::makeRef\<close> is defined outside this header. The
  handle binds to existing native storage and owns nothing. For a value that is already a
  handle, the storage is that of the object the handle stands for.
\<close>

fun makeRef :: "native \<Rightarrow> failure + UserObject" where
  "makeRef (NObject c a) = Inr \<lparr>owns = False, tag = c, target = a\<rparr>"
| "makeRef (NHandle h) = Inr (h\<lparr>owns := False\<rparr>)"
| "makeRef v = Inl NotInstantiable"

text \<open>
  Modelled from the spec: \<^verbatim>\<open>UserObject::ref<T>()\<close> is defined outside this header.
  Typed access to the object of the handle; it fails if the stored type tag is not \<open>T\<close>.
\<close>

definition UserObject_ref :: "class_id \<Rightarrow> UserObject \<Rightarrow> failure + native" where
  "UserObject_ref T h =
     (if tag h = T then Inr (NObject T (target h)) else Inl TypeMismatchOnHandleAccess)"

text \<open>
  Modelled from the spec: \<^verbatim>\<open>pushUserObject\<close> is only declared in this header (line 41).
  It writes the handle to the stack as opaque user data, one value.
\<close>

definition pushUserObject :: "lua_State \<Rightarrow> UserObject \<Rightarrow> failure + (int \<times> lua_State)" where
  "pushUserObject L uobj = Inr (1, L @ [LUserdata uobj])"

text \<open>The value a handle shows: the object in its cell.\<close>

definition handle_value :: "memory \<Rightarrow> UserObject \<Rightarrow> obj option" where
  "handle_value M h = (if target h < length M then Some (M ! target h) else None)"

subsection \<open>Return policies and \<^verbatim>\<open>ChooseCallReturner\<close>\<close>

text \<open>
  A policy list is a \<^verbatim>\<open>std::tuple\<close> of policy kinds. The header knows
  \<^verbatim>\<open>policy::ReturnCopy\<close> and \<^verbatim>\<open>policy::ReturnInternalRef\<close>;
  every other kind is \<open>OtherPolicy\<close>.
\<close>

datatype policy = ReturnCopy | ReturnInternalRef | OtherPolicy nat

datatype returner = CallReturnCopy | CallReturnInternalRef

text \<open>
  The four partial specialisations of \<^verbatim>\<open>ChooseCallReturner\<close>, lines 147-169. On a
  tuple that starts with a known kind both that specialisation and the recursive one
  match; partial ordering picks the more specialised one, which is the earlier equation
  here.
\<close>

fun ChooseCallReturner :: "policy list \<Rightarrow> returner" where
  "ChooseCallReturner (ReturnCopy # Ps) = CallReturnCopy"
| "ChooseCallReturner (ReturnInternalRef # Ps) = CallReturnInternalRef"
| "ChooseCallReturner [] = CallReturnCopy"
| "ChooseCallReturner (P # Ps) = ChooseCallReturner Ps"

text \<open>
  The resolution algorithm in the words of the specification: scan the list left to
  right, the first entry that is a known policy tag decides, and CopyReturn is the
  default.
\<close>

fun known_policy :: "policy \<Rightarrow> bool" where
  "known_policy ReturnCopy = True"
| "known_policy ReturnInternalRef = True"
| "known_policy (OtherPolicy k) = False"

definition resolve_policy :: "policy list \<Rightarrow> returner" where
  "resolve_policy Ps =
     (case find known_policy Ps of
        Some ReturnInternalRef \<Rightarrow> CallReturnInternalRef
      | Some _ \<Rightarrow> CallReturnCopy
      | None \<Rightarrow> CallReturnCopy)"

subsection \<open>Writing values: \<^verbatim>\<open>LuaValueWriter\<close>\<close>

text \<open>
  Lines 48-93: one specialisation each for integral types, floating-point types,
  \<^verbatim>\<open>std::string\<close>, \<^verbatim>\<open>detail::string_view\<close> and \<^verbatim>\<open>UserObject\<close>. Both string
  writers pass \<^verbatim>\<open>value.data()\<close> to \<^verbatim>\<open>lua_pushstring\<close>, which reads a C string.
  Every writer returns the count 1, but for \<^verbatim>\<open>pushUserObject\<close>, whose count is passed on.
\<close>

fun LuaValueWriter_push :: "native \<Rightarrow> lua_State \<Rightarrow> failure + (int \<times> lua_State)" where
  "LuaValueWriter_push (NInt v) L = Inr (1, lua_pushinteger L (to_lua_Integer v))"
| "LuaValueWriter_push (NFloat x) L = Inr (1, lua_pushnumber L (to_lua_Number x))"
| "LuaValueWriter_push (NString s) L = Inr (1, lua_pushstring L (Some s))"
| "LuaValueWriter_push (NStringView d n) L = Inr (1, lua_pushstring L d)"
| "LuaValueWriter_push (NHandle h) L = pushUserObject L h"
| "LuaValueWriter_push v L = Inl NotInstantiable"

subsection \<open>Returning values: \<^verbatim>\<open>CallReturnCopy\<close> and \<^verbatim>\<open>CallReturnInternalRef\<close>\<close>

text \<open>
  A returner takes the value the callable returned, the stack and native memory, and
  gives the result count, the stack and the memory. Lines 100-111.
\<close>

definition with_memory ::
  "memory \<Rightarrow> failure + (int \<times> lua_State) \<Rightarrow> failure + (int \<times> lua_State \<times> memory)" where
  "with_memory M r = (case r of Inl e \<Rightarrow> Inl e | Inr (n, L) \<Rightarrow> Inr (n, L, M))"

definition CallReturnCopy_value ::
  "native \<Rightarrow> lua_State \<Rightarrow> memory \<Rightarrow> failure + (int \<times> lua_State \<times> memory)" where
  "CallReturnCopy_value v L M =
     (if \<not> IsUserType v then with_memory M (LuaValueWriter_push v L)
      else (case makeCopy v M of
              Inl e \<Rightarrow> Inl e
            | Inr (h, M') \<Rightarrow> with_memory M' (LuaValueWriter_push (NHandle h) L)))"

text \<open>Lines 118-139.\<close>

definition CallReturnInternalRef_value ::
  "native \<Rightarrow> lua_State \<Rightarrow> memory \<Rightarrow> failure + (int \<times> lua_State \<times> memory)" where
  "CallReturnInternalRef_value v L M =
     (if \<not> IsUserType v \<and> \<not> IsUserObject v then with_memory M (LuaValueWriter_push v L)
      else (case makeRef v of
              Inl e \<Rightarrow> Inl e
            | Inr h \<Rightarrow> with_memory M (LuaValueWriter_push (NHandle h) L)))"

fun CallReturner_value ::
  "returner \<Rightarrow> native \<Rightarrow> lua_State \<Rightarrow> memory \<Rightarrow> failure + (int \<times> lua_State \<times> memory)" where
  "CallReturner_value CallReturnCopy = CallReturnCopy_value"
| "CallReturner_value CallReturnInternalRef = CallReturnInternalRef_value"

subsection \<open>Reading arguments: \<^verbatim>\<open>LuaValueReader\<close> and \<^verbatim>\<open>ConvertArgs\<close>\<close>

text \<open>
  Lines 174-232: one specialisation each for integral types, floating-point types,
  enumerations, \<^verbatim>\<open>detail::string_view\<close> and user types. The result is the native value
  and the stack, which \<^verbatim>\<open>lua_tostring\<close> may have changed.

  \<^verbatim>\<open>detail::string_view\<close> is defined outside this header. The view is constructed
  from the character pointer \<^verbatim>\<open>lua_tostring\<close> returns, which measures the C string at
  the pointer, as the constructor of \<^verbatim>\<open>std::string_view\<close> does. For \<^verbatim>\<open>NULL\<close> there
  is no string to measure: the behaviour is undefined.

  The reader for user types tests the slot at \<open>index\<close> and raises the engine error if it
  is no userdata. It then fetches \<^verbatim>\<open>lua_touserdata(L, 1)\<close>: the slot at 1, whatever
  \<open>index\<close> is (line 228). The pointer is reinterpreted as a \<^verbatim>\<open>UserObject*\<close> and
  dereferenced; that is defined only for the block of a full userdata.
\<close>

fun LuaValueReader_convert ::
  "engine \<Rightarrow> ctype \<Rightarrow> lua_State \<Rightarrow> nat \<Rightarrow> failure + (native \<times> lua_State)" where
  "LuaValueReader_convert E (TIntegral t) L index =
     Inr (NInt (from_lua_Integer t (lua_tointeger E L index)), L)"
| "LuaValueReader_convert E (TFloatingPoint F) L index =
     Inr (NFloat (from_lua_Number F (lua_tonumber E L index)), L)"
| "LuaValueReader_convert E TEnum L index =
     Inr (NEnum (lua_tointeger E L index), L)"
| "LuaValueReader_convert E TStringView L index =
     (case lua_tostring E L index of
        (None, L') \<Rightarrow> Inl UndefinedBehaviour
      | (Some s, L') \<Rightarrow> Inr (NStringView (Some (c_str s)) (length (c_str s)), L'))"
| "LuaValueReader_convert E (TUserType T) L index =
     (if \<not> lua_isuserdata L index then Inl (luaL_error_expecting_user_data index)
      else (case lua_touserdata L 1 of
              Block uobj \<Rightarrow>
                (case UserObject_ref T uobj of Inl e \<Rightarrow> Inl e | Inr v \<Rightarrow> Inr (v, L))
            | _ \<Rightarrow> Inl UndefinedBehaviour))"
| "LuaValueReader_convert E P L index = Inl NotInstantiable"

text \<open>Lines 237-248.\<close>

definition ConvertArgs_convert ::
  "engine \<Rightarrow> ctype \<Rightarrow> lua_State \<Rightarrow> nat \<Rightarrow> failure + (native \<times> lua_State)" where
  "ConvertArgs_convert E P L index = LuaValueReader_convert E P L (index + 1)"

subsection \<open>The call: \<^verbatim>\<open>CallHelper\<close> and \<^verbatim>\<open>FunctionWrapper\<close>\<close>

text \<open>
  \<^verbatim>\<open>func(ConvertArgs<A>::convert(L, Is)...)\<close> expands to one argument expression per
  position of the packs \<open>A\<close> and \<open>Is\<close>. C++ evaluates every argument expression of a call
  before the body of the callee, and leaves the order among the argument expressions
  unspecified: the initialisation of a parameter is indeterminately sequenced with respect
  to that of any other parameter. Compilers differ: some evaluate the arguments left to
  right, some right to left. The order the compiler chose is the parameter \<open>ord\<close>, a
  permutation of the positions \<open>0..<N\<close>: \<open>sort ord = [0..<N]\<close>.

  \<open>convert_args\<close> runs the conversions in that order. It gives the log of the conversions
  that completed, and either the failure of the first conversion that failed or the
  values by position and the stack.
\<close>

datatype event = Converted nat | Invoked "native list"

fun convert_args ::
  "engine \<Rightarrow> (ctype \<times> nat) list \<Rightarrow> nat list \<Rightarrow> lua_State \<Rightarrow>
     event list \<times> (failure + ((nat \<times> native) list \<times> lua_State))" where
  "convert_args E AIs [] L = ([], Inr ([], L))"
| "convert_args E AIs (p # ps) L =
     (case ConvertArgs_convert E (fst (AIs ! p)) L (snd (AIs ! p)) of
        Inl e \<Rightarrow> ([], Inl e)
      | Inr (v, L') \<Rightarrow>
          (case convert_args E AIs ps L' of
             (evs, Inl e) \<Rightarrow> (Converted p # evs, Inl e)
           | (evs, Inr (vs, L'')) \<Rightarrow> (Converted p # evs, Inr ((p, v) # vs, L''))))"

text \<open>The argument list of the call: the converted values in the order of their
  positions.\<close>

definition arguments :: "(nat \<times> native) list \<Rightarrow> native list" where
  "arguments vs = map snd (sort_key fst vs)"

text \<open>
  A native callable reads and writes native memory. Lines 250-261: the returner chosen
  from the policies writes the value the callable returned.
\<close>

definition CallHelper_call ::
  "engine \<Rightarrow> policy list \<Rightarrow> (native list \<Rightarrow> memory \<Rightarrow> native \<times> memory) \<Rightarrow>
     ctype list \<Rightarrow> nat list \<Rightarrow> lua_State \<Rightarrow> memory \<Rightarrow> nat list \<Rightarrow>
     event list \<times> (failure + (int \<times> lua_State \<times> memory))" where
  "CallHelper_call E FPolicies func A Is L M ord =
     (case convert_args E (zip A Is) ord L of
        (evs, Inl e) \<Rightarrow> (evs, Inl e)
      | (evs, Inr (vs, L')) \<Rightarrow>
          (case func (arguments vs) M of
             (r, M') \<Rightarrow>
               (evs @ [Invoked (arguments vs)],
                CallReturner_value (ChooseCallReturner FPolicies) r L' M')))"

text \<open>Lines 264-275, the specialisation for \<^verbatim>\<open>void\<close>: the callable is invoked and the
  count 0 is returned.\<close>

definition CallHelper_void_call ::
  "engine \<Rightarrow> (native list \<Rightarrow> memory \<Rightarrow> memory) \<Rightarrow>
     ctype list \<Rightarrow> nat list \<Rightarrow> lua_State \<Rightarrow> memory \<Rightarrow> nat list \<Rightarrow>
     event list \<times> (failure + (int \<times> lua_State \<times> memory))" where
  "CallHelper_void_call E func A Is L M ord =
     (case convert_args E (zip A Is) ord L of
        (evs, Inl e) \<Rightarrow> (evs, Inl e)
      | (evs, Inr (vs, L')) \<Rightarrow>
          (evs @ [Invoked (arguments vs)], Inr (0, L', func (arguments vs) M)))"

text \<open>Lines 280-293: \<^verbatim>\<open>make_index_sequence<sizeof...(P)>\<close> is \<open>0, ..., N-1\<close>; the return
  type selects the helper.\<close>

datatype callable =
    Returning "native list \<Rightarrow> memory \<Rightarrow> native \<times> memory"
  | ReturningVoid "native list \<Rightarrow> memory \<Rightarrow> memory"

fun FunctionWrapper_call ::
  "engine \<Rightarrow> policy list \<Rightarrow> callable \<Rightarrow> ctype list \<Rightarrow> lua_State \<Rightarrow> memory \<Rightarrow> nat list \<Rightarrow>
     event list \<times> (failure + (int \<times> lua_State \<times> memory))" where
  "FunctionWrapper_call E FPolicies (Returning func) P L M ord =
     CallHelper_call E FPolicies func P [0..<length P] L M ord"
| "FunctionWrapper_call E FPolicies (ReturningVoid func) P L M ord =
     CallHelper_void_call E func P [0..<length P] L M ord"

subsection \<open>Vocabulary of the properties\<close>

text \<open>
  What \<^verbatim>\<open>lua_tostring\<close> makes of a slot it converts in place, and the stacks that differ
  from a given one by such conversions only: the same height, and each slot either
  unchanged or a number turned into its string.
\<close>

fun coerced :: "engine \<Rightarrow> lua_value \<Rightarrow> lua_value" where
  "coerced E (LInteger i) = LString (int2str E i)"
| "coerced E (LNumber n) = LString (flt2str E n)"
| "coerced E v = v"

definition stack_coerced :: "engine \<Rightarrow> lua_State \<Rightarrow> lua_State \<Rightarrow> bool" where
  "stack_coerced E L L' = list_all2 (\<lambda>x y. y = x \<or> y = coerced E x) L L'"

text \<open>The value parameter \<open>p\<close> of the list \<open>P\<close> gets when it is converted on the
  stack \<open>L\<close>, or the failure of that conversion.\<close>

definition read_argument :: "engine \<Rightarrow> ctype list \<Rightarrow> lua_State \<Rightarrow> nat \<Rightarrow> failure + native" where
  "read_argument E P L p = map_sum id fst (ConvertArgs_convert E (P ! p) L p)"

text \<open>A slot the engine can coerce to a number or a string.\<close>

fun numeric_or_string :: "lua_value option \<Rightarrow> bool" where
  "numeric_or_string (Some (LInteger i)) = True"
| "numeric_or_string (Some (LNumber n)) = True"
| "numeric_or_string (Some (LString s)) = True"
| "numeric_or_string v = False"

text \<open>A parameter that is read without a type check, on a slot for which the read is
  defined: any slot for an integral, floating-point or enumeration parameter, a string or
  a number for a string view.\<close>

fun unchecked_read_defined :: "ctype \<Rightarrow> lua_value option \<Rightarrow> bool" where
  "unchecked_read_defined (TIntegral t) v = True"
| "unchecked_read_defined (TFloatingPoint F) v = True"
| "unchecked_read_defined TEnum v = True"
| "unchecked_read_defined TStringView v = numeric_or_string v"
| "unchecked_read_defined P v = False"

text \<open>The width of an integral type in bits.\<close>

fun width :: "IntegralType \<Rightarrow> nat" where
  "width TBool = 1"
| "width (TSigned w) = w"
| "width (TUnsigned w) = w"

text \<open>An engine for the concrete examples: it converts no float and no string to a
  number, and prints an integer as the decimal numeral of its unsigned value.\<close>

definition plain_engine :: engine where
  "plain_engine =
     \<lparr>flt2int = (\<lambda>n. None), str2int = (\<lambda>s. None), int2flt = (\<lambda>i. Fin False 0 0),
      str2flt = (\<lambda>s. None), int2str = (\<lambda>i. decimal (unat i)), flt2str = (\<lambda>n. ''0'')\<rparr>"

section \<open>Properties\<close>

subsection \<open>In-place coercion keeps the shape of the stack\<close>

text \<open>
  The only write of an argument conversion to the stack is the in-place conversion of
  \<^verbatim>\<open>lua_tostring\<close>. It keeps the height of the stack, every userdata and every slot
  other than the one converted.
\<close>

lemma coerced_idem: "coerced E (coerced E v) = coerced E v"
  by (cases v) simp_all

lemma stack_coerced_refl: "stack_coerced E L L"
  by (simp add: stack_coerced_def list_all2_refl)

lemma stack_coerced_trans:
  "stack_coerced E L L1 \<Longrightarrow> stack_coerced E L1 L2 \<Longrightarrow> stack_coerced E L L2"
  unfolding stack_coerced_def list_all2_conv_all_nth
  by (auto simp: coerced_idem) (metis coerced_idem)

lemma stack_coerced_length: "stack_coerced E L L' \<Longrightarrow> length L' = length L"
  by (simp add: stack_coerced_def list_all2_lengthD)

lemma stack_coerced_nth:
  "stack_coerced E L L' \<Longrightarrow> i < length L \<Longrightarrow> L' ! i = L ! i \<or> L' ! i = coerced E (L ! i)"
  by (simp add: stack_coerced_def list_all2_conv_all_nth)

lemma stack_coerced_update:
  "i < length L \<Longrightarrow> stack_coerced E L (L[i := coerced E (L ! i)])"
  by (simp add: stack_coerced_def list_all2_conv_all_nth nth_list_update)

lemma lua_tostring_coerced: "lua_tostring E L idx = (r, L') \<Longrightarrow> stack_coerced E L L'"
  using stack_coerced_update [of "idx - 1" L E]
  by (auto simp: lua_tostring_def index2value_def stack_coerced_refl
      split: option.splits lua_value.splits if_splits)

lemma LuaValueReader_convert_coerced:
  "LuaValueReader_convert E P L idx = Inr (v, L') \<Longrightarrow> stack_coerced E L L'"
  by (cases P)
    (auto simp: stack_coerced_refl split: prod.splits option.splits if_splits pointer.splits
      sum.splits dest: lua_tostring_coerced)

lemma convert_args_coerced:
  "convert_args E AIs ord L = (evs, Inr (vs, L')) \<Longrightarrow> stack_coerced E L L'"
proof (induction ord arbitrary: L evs vs)
  case Nil
  then show ?case by (simp add: stack_coerced_refl)
next
  case (Cons p ps)
  then show ?case
    by (auto simp: ConvertArgs_convert_def split: sum.splits prod.splits
        dest!: LuaValueReader_convert_coerced intro: stack_coerced_trans)
qed

lemma convert_args_log:
  "convert_args E AIs ord L = (evs, Inr (vs, L')) \<Longrightarrow> evs = map Converted ord \<and> map fst vs = ord"
  by (induction ord arbitrary: L evs vs) (auto split: sum.splits prod.splits)

lemma convert_args_fail_log:
  "convert_args E AIs ord L = (evs, Inl e) \<Longrightarrow> \<exists>k<length ord. evs = map Converted (take k ord)"
proof (induction ord arbitrary: L evs e)
  case Nil
  then show ?case by simp
next
  case (Cons p ps)
  show ?case
  proof (cases "ConvertArgs_convert E (fst (AIs ! p)) L (snd (AIs ! p))")
    case (Inl e')
    with Cons.prems have "evs = map Converted (take 0 (p # ps))" by simp
    then show ?thesis by blast
  next
    case (Inr r)
    obtain v L1 where r: "r = (v, L1)" by (cases r)
    obtain evs1 r1 where c: "convert_args E AIs ps L1 = (evs1, r1)" by (cases "convert_args E AIs ps L1")
    from Cons.prems Inr r c have r1: "r1 = Inl e" and evs: "evs = Converted p # evs1"
      by (cases r1; auto split: prod.splits)+
    from Cons.IH [of L1 evs1 e] c r1 obtain k where "k < length ps" "evs1 = map Converted (take k ps)"
      by auto
    with evs have "Suc k < length (p # ps)" "evs = map Converted (take (Suc k) (p # ps))" by simp_all
    then show ?thesis by blast
  qed
qed

lemma convert_args_append:
  "convert_args E AIs (xs @ ys) L =
     (case convert_args E AIs xs L of
        (evs, Inl e) \<Rightarrow> (evs, Inl e)
      | (evs, Inr (vs, L1)) \<Rightarrow>
          (case convert_args E AIs ys L1 of
             (evs', Inl e) \<Rightarrow> (evs @ evs', Inl e)
           | (evs', Inr (vs', L2)) \<Rightarrow> (evs @ evs', Inr (vs @ vs', L2))))"
  by (induction xs arbitrary: L) (auto split: sum.splits prod.splits)


lemma index2value_coerced:
  "stack_coerced E L L' \<Longrightarrow>
     index2value L' i = index2value L i \<or>
     (\<exists>x. index2value L i = Some x \<and> index2value L' i = Some (coerced E x))"
  using stack_coerced_nth [of E L L' "i - 1"] stack_coerced_length [of E L L']
  by (auto simp: index2value_def)

lemma lua_isuserdata_coerced:
  "stack_coerced E L L' \<Longrightarrow> lua_isuserdata L' i = lua_isuserdata L i"
proof -
  assume "stack_coerced E L L'"
  then consider "index2value L' i = index2value L i"
    | x where "index2value L i = Some x" and "index2value L' i = Some (coerced E x)"
    using index2value_coerced by blast
  then show ?thesis
  proof cases
    case 1
    then show ?thesis by (simp add: lua_isuserdata_def)
  next
    case 2
    then show ?thesis by (cases x) (simp_all add: lua_isuserdata_def)
  qed
qed

lemma lua_touserdata_coerced:
  "stack_coerced E L L' \<Longrightarrow> lua_touserdata L' i = lua_touserdata L i"
proof -
  assume "stack_coerced E L L'"
  then consider "index2value L' i = index2value L i"
    | x where "index2value L i = Some x" and "index2value L' i = Some (coerced E x)"
    using index2value_coerced by blast
  then show ?thesis
  proof cases
    case 1
    then show ?thesis by (simp add: lua_touserdata_def)
  next
    case 2
    then show ?thesis by (cases x) (simp_all add: lua_touserdata_def)
  qed
qed

subsection \<open>The arguments do not depend on the order of the conversions\<close>

text \<open>
  An evaluation order is a permutation of the positions. Each conversion reads its own
  slot (and slot 1 for a user type), and an in-place coercion changes neither, so every
  argument has the value its conversion gives on the stack as the call found it.
\<close>

lemma reader_stable:
  assumes "stack_coerced E L L1" and "index2value L1 idx = index2value L idx"
  shows "map_sum id fst (LuaValueReader_convert E P L1 idx) =
         map_sum id fst (LuaValueReader_convert E P L idx)"
proof (cases P)
  case (TUserType T)
  from assms(2) have "lua_isuserdata L1 idx = lua_isuserdata L idx"
    by (simp add: lua_isuserdata_def)
  moreover from assms(1) have "lua_touserdata L1 1 = lua_touserdata L 1"
    by (rule lua_touserdata_coerced)
  ultimately show ?thesis
    using TUserType by (simp split: pointer.splits sum.splits)
next
  case TStringView
  from assms(2) have "fst (lua_tostring E L1 idx) = fst (lua_tostring E L idx)"
    by (simp add: lua_tostring_def split: option.splits lua_value.splits)
  then show ?thesis
    using TStringView by (auto split: prod.splits option.splits)
qed (use assms(2) in \<open>simp_all add: lua_tointeger_def lua_tonumber_def\<close>)

lemma lua_tostring_other_slots:
  "lua_tostring E L idx = (r, L') \<Longrightarrow> j \<noteq> idx \<Longrightarrow> index2value L' j = index2value L j"
  by (auto simp: lua_tostring_def index2value_def split: option.splits lua_value.splits if_splits)

lemma reader_other_slots:
  "LuaValueReader_convert E P L idx = Inr (v, L') \<Longrightarrow> j \<noteq> idx \<Longrightarrow>
     index2value L' j = index2value L j"
  by (cases P)
    (auto split: prod.splits option.splits if_splits pointer.splits sum.splits
      dest: lua_tostring_other_slots)

lemma convert_args_step:
  assumes "p < length P" and "stack_coerced E L0 L"
    and "index2value L (p + 1) = index2value L0 (p + 1)"
  shows "map_sum id fst (ConvertArgs_convert E (fst (zip P [0..<length P] ! p)) L
           (snd (zip P [0..<length P] ! p))) = read_argument E P L0 p"
  using assms reader_stable [of E L0 L "p + 1" "P ! p"]
  by (simp add: read_argument_def ConvertArgs_convert_def)

lemma convert_args_success:
  assumes "distinct ord" and "set ord \<subseteq> {0..<length P}" and "stack_coerced E L0 L"
    and "\<forall>q\<in>set ord. index2value L (q + 1) = index2value L0 (q + 1)"
    and "\<forall>q\<in>set ord. \<exists>v. read_argument E P L0 q = Inr v"
  shows "\<exists>vs L'. convert_args E (zip P [0..<length P]) ord L = (map Converted ord, Inr (vs, L'))"
  using assms
proof (induction ord arbitrary: L)
  case Nil
  then show ?case by simp
next
  case (Cons p ps)
  from Cons.prems have p: "p < length P" by simp
  from Cons.prems obtain v where v: "read_argument E P L0 p = Inr v" by auto
  from Cons.prems have "index2value L (p + 1) = index2value L0 (p + 1)" by simp
  from convert_args_step [OF p Cons.prems(3) this] v
  obtain L1 where c: "ConvertArgs_convert E (fst (zip P [0..<length P] ! p)) L
           (snd (zip P [0..<length P] ! p)) = Inr (v, L1)"
    by (cases "ConvertArgs_convert E (fst (zip P [0..<length P] ! p)) L
           (snd (zip P [0..<length P] ! p))") auto
  with p have r: "LuaValueReader_convert E (P ! p) L (p + 1) = Inr (v, L1)"
    by (simp add: ConvertArgs_convert_def)
  have co: "stack_coerced E L0 L1"
    using Cons.prems(3) LuaValueReader_convert_coerced [OF r] by (rule stack_coerced_trans)
  have others: "\<forall>q\<in>set ps. index2value L1 (q + 1) = index2value L0 (q + 1)"
  proof
    fix q assume q: "q \<in> set ps"
    with Cons.prems(1) have "q + 1 \<noteq> p + 1" by auto
    from reader_other_slots [OF r this] Cons.prems(4) q show "index2value L1 (q + 1) = index2value L0 (q + 1)"
      by simp
  qed
  from Cons.prems have "\<exists>vs L'. convert_args E (zip P [0..<length P]) ps L1 = (map Converted ps, Inr (vs, L'))"
    by (intro Cons.IH [OF _ _ co others]) auto
  then show ?case using c by auto
qed

lemma convert_args_values:
  assumes "distinct ord" and "set ord \<subseteq> {0..<length P}" and "stack_coerced E L0 L"
    and "\<forall>q\<in>set ord. index2value L (q + 1) = index2value L0 (q + 1)"
    and "convert_args E (zip P [0..<length P]) ord L = (evs, Inr (vs, L'))"
  shows "vs = map (\<lambda>q. (q, projr (read_argument E P L0 q))) ord \<and>
         (\<forall>q\<in>set ord. \<exists>v. read_argument E P L0 q = Inr v)"
  using assms
proof (induction ord arbitrary: L evs vs)
  case Nil
  then show ?case by simp
next
  case (Cons p ps)
  from Cons.prems have p: "p < length P" by simp
  from Cons.prems have "index2value L (p + 1) = index2value L0 (p + 1)" by simp
  note step = convert_args_step [OF p Cons.prems(3) this]
  from Cons.prems(5) obtain v L1 where c: "ConvertArgs_convert E (fst (zip P [0..<length P] ! p)) L
           (snd (zip P [0..<length P] ! p)) = Inr (v, L1)"
    by (auto split: sum.splits)
  with step have v: "read_argument E P L0 p = Inr v" by simp
  from c p have r: "LuaValueReader_convert E (P ! p) L (p + 1) = Inr (v, L1)"
    by (simp add: ConvertArgs_convert_def)
  have co: "stack_coerced E L0 L1"
    using Cons.prems(3) LuaValueReader_convert_coerced [OF r] by (rule stack_coerced_trans)
  have others: "\<forall>q\<in>set ps. index2value L1 (q + 1) = index2value L0 (q + 1)"
  proof
    fix q assume q: "q \<in> set ps"
    with Cons.prems(1) have "q + 1 \<noteq> p + 1" by auto
    from reader_other_slots [OF r this] Cons.prems(4) q show "index2value L1 (q + 1) = index2value L0 (q + 1)"
      by simp
  qed
  from Cons.prems(5) c obtain evs1 vs1 where rest: "convert_args E (zip P [0..<length P]) ps L1 = (evs1, Inr (vs1, L'))"
    and vs: "vs = (p, v) # vs1"
    by (auto split: sum.splits prod.splits)
  from Cons.prems have "vs1 = map (\<lambda>q. (q, projr (read_argument E P L0 q))) ps \<and>
         (\<forall>q\<in>set ps. \<exists>v. read_argument E P L0 q = Inr v)"
    by (intro Cons.IH [OF _ _ co others rest]) auto
  with vs v show ?case by simp
qed

lemma evaluation_order:
  assumes "sort ord = [0..<n]"
  shows "distinct ord" and "set ord = {0..<n}" and "length ord = n"
proof -
  have "distinct (sort ord)" using assms by simp
  then show "distinct ord" by simp
  have "set (sort ord) = {0..<n}" using assms by simp
  then show "set ord = {0..<n}" by simp
  have "length (sort ord) = n" using assms by simp
  then show "length ord = n" by simp
qed

lemma insort_key_tagged:
  "insort_key fst (q, f q) (map (\<lambda>q. (q, f q)) xs) = map (\<lambda>q. (q, f q)) (insort q xs)"
  by (induction xs) simp_all

lemma sort_key_tagged:
  "sort_key fst (map (\<lambda>q. (q, f q)) xs) = map (\<lambda>q. (q, f q)) (sort xs)"
  by (induction xs) (simp_all add: insort_key_tagged)

lemma arguments_tagged:
  "sort ord = [0..<n] \<Longrightarrow> arguments (map (\<lambda>q. (q, f q)) ord) = map f [0..<n]"
  by (simp add: arguments_def sort_key_tagged comp_def)

lemma convert_args_by_position:
  assumes "sort ord = [0..<length P]"
    and "convert_args E (zip P [0..<length P]) ord L = (evs, Inr (vs, L'))"
  shows "arguments vs = map (\<lambda>q. projr (read_argument E P L q)) [0..<length P]"
    and "\<forall>q<length P. \<exists>v. read_argument E P L q = Inr v"
proof -
  note eo = evaluation_order [OF assms(1)]
  have v: "vs = map (\<lambda>q. (q, projr (read_argument E P L q))) ord \<and>
         (\<forall>q\<in>set ord. \<exists>v. read_argument E P L q = Inr v)"
    by (rule convert_args_values [OF eo(1) _ stack_coerced_refl _ assms(2)]) (simp_all add: eo)
  then show "arguments vs = map (\<lambda>q. projr (read_argument E P L q)) [0..<length P]"
    using arguments_tagged [OF assms(1)] by simp
  from v show "\<forall>q<length P. \<exists>v. read_argument E P L q = Inr v"
    by (simp add: eo)
qed

lemma convert_args_total:
  assumes "sort ord = [0..<length P]"
    and "\<forall>q<length P. \<exists>v. read_argument E P L q = Inr v"
  shows "\<exists>vs L'. convert_args E (zip P [0..<length P]) ord L = (map Converted ord, Inr (vs, L'))"
proof -
  note eo = evaluation_order [OF assms(1)]
  show ?thesis
    by (rule convert_args_success [OF eo(1) _ stack_coerced_refl]) (use assms(2) in \<open>simp_all add: eo\<close>)
qed

lemma convert_args_other_slots:
  assumes "set ord \<subseteq> {0..<length P}"
    and "convert_args E (zip P [0..<length P]) ord L = (evs, Inr (vs, L'))"
    and "j \<notin> Suc ` set ord"
  shows "index2value L' j = index2value L j"
  using assms
proof (induction ord arbitrary: L evs vs)
  case Nil
  then show ?case by simp
next
  case (Cons p ps)
  from Cons.prems have p: "p < length P" by simp
  from Cons.prems(2) obtain v L1 where c: "ConvertArgs_convert E (fst (zip P [0..<length P] ! p)) L
           (snd (zip P [0..<length P] ! p)) = Inr (v, L1)"
    by (auto split: sum.splits)
  with p have r: "LuaValueReader_convert E (P ! p) L (p + 1) = Inr (v, L1)"
    by (simp add: ConvertArgs_convert_def)
  from Cons.prems(3) have "j \<noteq> p + 1" by auto
  from reader_other_slots [OF r this] have 1: "index2value L1 j = index2value L j" .
  from Cons.prems(2) c obtain evs1 vs1 where rest: "convert_args E (zip P [0..<length P]) ps L1 = (evs1, Inr (vs1, L'))"
    by (auto split: sum.splits prod.splits)
  from Cons.prems have "index2value L' j = index2value L1 j"
    by (intro Cons.IH [OF _ rest]) auto
  with 1 show ?case by simp
qed

lemma reader_keeps_stack:
  "LuaValueReader_convert E P L idx = Inr (v, L') \<Longrightarrow> P \<noteq> TStringView \<Longrightarrow> L' = L"
  by (cases P) (auto split: if_splits pointer.splits sum.splits)

lemma convert_args_keeps_stack:
  assumes "set ord \<subseteq> {0..<length P}" and "TStringView \<notin> set P"
    and "convert_args E (zip P [0..<length P]) ord L = (evs, Inr (vs, L'))"
  shows "L' = L"
  using assms
proof (induction ord arbitrary: L evs vs)
  case Nil
  then show ?case by simp
next
  case (Cons p ps)
  from Cons.prems have p: "p < length P" by simp
  from Cons.prems(3) obtain v L1 where c: "ConvertArgs_convert E (fst (zip P [0..<length P] ! p)) L
           (snd (zip P [0..<length P] ! p)) = Inr (v, L1)"
    by (auto split: sum.splits)
  with p have r: "LuaValueReader_convert E (P ! p) L (p + 1) = Inr (v, L1)"
    by (simp add: ConvertArgs_convert_def)
  from p Cons.prems(2) have "P ! p \<noteq> TStringView" by (metis nth_mem)
  from reader_keeps_stack [OF r this] have 1: "L1 = L" .
  from Cons.prems(3) c obtain evs1 vs1 where rest: "convert_args E (zip P [0..<length P]) ps L1 = (evs1, Inr (vs1, L'))"
    by (auto split: sum.splits prod.splits)
  from Cons.prems have "L' = L1"
    by (intro Cons.IH [OF _ _ rest]) auto
  with 1 show ?case by simp
qed

subsection \<open>The first conversion that fails\<close>

text \<open>
  When the conversions of a call fail, the failure is that of the first position, in the
  order of evaluation, whose conversion fails on the stack as the call found it; the
  conversions before it have completed.
\<close>

lemma convert_args_failure:
  assumes "distinct ord" and "set ord \<subseteq> {0..<length P}" and "stack_coerced E L0 L"
    and "\<forall>q\<in>set ord. index2value L (q + 1) = index2value L0 (q + 1)"
    and "convert_args E (zip P [0..<length P]) ord L = (evs, Inl e)"
  shows "\<exists>pre q post. ord = pre @ q # post \<and> evs = map Converted pre
           \<and> read_argument E P L0 q = Inl e
           \<and> (\<forall>r\<in>set pre. \<exists>v. read_argument E P L0 r = Inr v)"
  using assms
proof (induction ord arbitrary: L evs)
  case Nil
  then show ?case by simp
next
  case (Cons p ps)
  let ?c = "ConvertArgs_convert E (fst (zip P [0..<length P] ! p)) L
           (snd (zip P [0..<length P] ! p))"
  from Cons.prems have p: "p < length P" by simp
  from Cons.prems have "index2value L (p + 1) = index2value L0 (p + 1)" by simp
  note step = convert_args_step [OF p Cons.prems(3) this]
  show ?case
  proof (cases ?c)
    case (Inl e')
    with Cons.prems(5) have "evs = []" "e' = e" by simp_all
    with Inl step have "read_argument E P L0 p = Inl e" by simp
    with \<open>evs = []\<close> have "p # ps = [] @ p # ps \<and> evs = map Converted []
           \<and> read_argument E P L0 p = Inl e
           \<and> (\<forall>r\<in>set []. \<exists>v. read_argument E P L0 r = Inr v)" by simp
    then show ?thesis by blast
  next
    case (Inr x)
    obtain v L1 where x: "x = (v, L1)" by (cases x)
    with Inr have c: "?c = Inr (v, L1)" by simp
    with step have v: "read_argument E P L0 p = Inr v" by simp
    from c p have r: "LuaValueReader_convert E (P ! p) L (p + 1) = Inr (v, L1)"
      by (simp add: ConvertArgs_convert_def)
    have co: "stack_coerced E L0 L1"
      using Cons.prems(3) LuaValueReader_convert_coerced [OF r] by (rule stack_coerced_trans)
    have others: "\<forall>q\<in>set ps. index2value L1 (q + 1) = index2value L0 (q + 1)"
    proof
      fix q assume q: "q \<in> set ps"
      with Cons.prems(1) have "q + 1 \<noteq> p + 1" by auto
      from reader_other_slots [OF r this] Cons.prems(4) q
      show "index2value L1 (q + 1) = index2value L0 (q + 1)" by simp
    qed
    from Cons.prems(5) c obtain evs1 where
      rest: "convert_args E (zip P [0..<length P]) ps L1 = (evs1, Inl e)"
      and evs: "evs = Converted p # evs1"
      by (auto split: sum.splits prod.splits)
    from Cons.prems have "\<exists>pre q post. ps = pre @ q # post \<and> evs1 = map Converted pre
           \<and> read_argument E P L0 q = Inl e
           \<and> (\<forall>r\<in>set pre. \<exists>v. read_argument E P L0 r = Inr v)"
      by (intro Cons.IH [OF _ _ co others rest]) auto
    then obtain pre q post where "ps = pre @ q # post" "evs1 = map Converted pre"
      "read_argument E P L0 q = Inl e" "\<forall>r\<in>set pre. \<exists>v. read_argument E P L0 r = Inr v"
      by blast
    with evs v have "p # ps = (p # pre) @ q # post \<and> evs = map Converted (p # pre)
           \<and> read_argument E P L0 q = Inl e
           \<and> (\<forall>r\<in>set (p # pre). \<exists>v. read_argument E P L0 r = Inr v)" by simp
    then show ?thesis by blast
  qed
qed

lemma convert_args_first_failure:
  assumes "sort ord = [0..<length P]"
    and "convert_args E (zip P [0..<length P]) ord L = (evs, Inl e)"
  shows "\<exists>pre q post. ord = pre @ q # post \<and> evs = map Converted pre
           \<and> read_argument E P L q = Inl e
           \<and> (\<forall>r\<in>set pre. \<exists>v. read_argument E P L r = Inr v)"
proof -
  note eo = evaluation_order [OF assms(1)]
  show ?thesis
    by (rule convert_args_failure [OF eo(1) _ stack_coerced_refl _ assms(2)]) (simp_all add: eo)
qed

subsection \<open>Conversions of floating-point values\<close>

text \<open>A value of a format is unchanged by the conversion to it, and so by the
  conversion to any format that has all the values of the first.\<close>

lemma normal_odd: "odd m \<Longrightarrow> normal m e = (m, e)"
  by (subst normal.simps) auto

lemma round_to_in_range: "fp_in_range F v \<Longrightarrow> round_to F v = v"
proof (cases v)
  case (Fin s m e)
  assume "fp_in_range F v"
  with Fin consider "m = 0" "e = 0"
    | "odd m" "bit_length m \<le> precision F" "emin F \<le> e"
      "int (bit_length m) + e \<le> int (precision F) + emax F"
    by auto
  then show ?thesis
  proof cases
    case 1
    then show ?thesis using Fin by simp
  next
    case 2
    then show ?thesis
      using Fin by (auto simp: finite_or_overflow_def normal_odd)
  qed
qed simp_all

lemma in_range_within: "format_within F G \<Longrightarrow> fp_in_range F v \<Longrightarrow> fp_in_range G v"
  by (cases v) (auto simp: format_within_def)

lemma from_to_lua_Number:
  assumes "fp_in_range F x" and "format_within F binary64"
  shows "from_lua_Number F (to_lua_Number x) = x"
proof -
  from assms have "fp_in_range binary64 x" by (simp add: in_range_within)
  then have "to_lua_Number x = x" by (simp add: to_lua_Number_def round_to_in_range)
  with assms(1) show ?thesis by (simp add: from_lua_Number_def round_to_in_range)
qed

subsection \<open>The call helpers\<close>

lemma call_failure:
  assumes "convert_args E (zip P [0..<length P]) ord L = (evs, Inl e)"
  shows "FunctionWrapper_call E FPolicies f P L M ord = (evs, Inl e)"
  using assms by (cases f) (simp_all add: CallHelper_call_def CallHelper_void_call_def)

lemma call_invokes:
  assumes "convert_args E (zip P [0..<length P]) ord L = (evs, Inr (vs, L'))"
  shows "\<exists>r. FunctionWrapper_call E FPolicies f P L M ord = (evs @ [Invoked (arguments vs)], r)"
  using assms by (cases f) (auto simp: CallHelper_call_def CallHelper_void_call_def split: prod.splits)

lemma void_call_result:
  assumes "convert_args E (zip P [0..<length P]) ord L = (evs, Inr (vs, L'))"
  shows "FunctionWrapper_call E FPolicies (ReturningVoid func) P L M ord =
           (evs @ [Invoked (arguments vs)], Inr (0, L', func (arguments vs) M))"
  using assms by (simp add: CallHelper_void_call_def)

lemma not_userdata_read:
  assumes "P ! p = TUserType T" and "\<not> lua_isuserdata L (p + 1)"
  shows "ConvertArgs_convert E (P ! p) L p = Inl (luaL_error_expecting_user_data (p + 1))"
  using assms by (simp add: ConvertArgs_convert_def)

lemma convert_args_reads:
  assumes "sort ord = [0..<length P]"
    and "convert_args E (zip P [0..<length P]) ord L = (evs, Inr (vs, L'))"
  shows "map Inr (arguments vs) = map (read_argument E P L) [0..<length P]"
proof -
  from convert_args_by_position [OF assms]
  have a: "arguments vs = map (\<lambda>q. projr (read_argument E P L q)) [0..<length P]"
    and b: "\<forall>q<length P. \<exists>v. read_argument E P L q = Inr v" by simp_all
  from b have "map (\<lambda>q. Inr (projr (read_argument E P L q))) [0..<length P]
      = map (read_argument E P L) [0..<length P]"
    by (intro map_cong) auto
  with a show ?thesis by (simp add: comp_def)
qed

lemma unchecked_read:
  assumes "unchecked_read_defined T (index2value L (p + 1))"
  shows "\<exists>v L'. ConvertArgs_convert E T L p = Inr (v, L')"
proof (cases T)
  case TStringView
  with assms have "numeric_or_string (index2value L (p + 1))" by simp
  then obtain s L' where "lua_tostring E L (p + 1) = (Some s, L')"
    by (cases "index2value L (p + 1)" rule: numeric_or_string.cases)
      (simp_all add: lua_tostring_def)
  with TStringView show ?thesis by (simp add: ConvertArgs_convert_def)
qed (use assms in \<open>simp_all add: ConvertArgs_convert_def\<close>)

text \<open>The returner that writes the result of a call is the one its policy list
  selects: a returned object is written as a non-owning handle under a list whose first
  known policy is \<^verbatim>\<open>ReturnInternalRef\<close>, and as an owning copy under the empty list.\<close>

lemma call_applies_policy:
  "CallReturner_value (ChooseCallReturner (ReturnInternalRef # Ps)) = CallReturnInternalRef_value"
  "CallReturner_value (ChooseCallReturner (ReturnCopy # Ps)) = CallReturnCopy_value"
  "FunctionWrapper_call E [OtherPolicy 0, ReturnInternalRef]
     (Returning (\<lambda>args M. (NObject ''A'' 0, M))) [] [] [10] []
   = ([Invoked []], Inr (1, [LUserdata \<lparr>owns = False, tag = ''A'', target = 0\<rparr>], [10]))"
  "FunctionWrapper_call E [] (Returning (\<lambda>args M. (NObject ''A'' 0, M))) [] [] [10] []
   = ([Invoked []], Inr (1, [LUserdata \<lparr>owns = True, tag = ''A'', target = 1\<rparr>], [10, 10]))"
  by (simp_all add: CallHelper_call_def arguments_def CallReturnInternalRef_value_def
      CallReturnCopy_value_def with_memory_def pushUserObject_def)

subsection \<open>Argument binding\<close>

text \<open>
  C1. For a call with N declared parameters, native argument i (counted from 1) is to be
  read from stack slot i, each argument from a slot of its own: \<open>f(a, b, c)\<close> binds \<open>a\<close>
  to slot 1, \<open>b\<close> to slot 2, \<open>c\<close> to slot 3. The header does not do this for a parameter
  of a user type: its reader tests the slot at the argument's index, but fetches the
  handle with \<^verbatim>\<open>lua_touserdata(L, 1)\<close>. Reading a user type at index 2 gives what
  reading at index 1 gives, and in a call \<open>f(a, b)\<close> with the handles of two different
  objects in slots 1 and 2, both \<open>a\<close> and \<open>b\<close> are bound to the object of slot 1.
\<close>

theorem UserType_arguments_all_read_slot_1:
  "LuaValueReader_convert E (TUserType T) [LUserdata h1, LUserdata h2] 2 =
     LuaValueReader_convert E (TUserType T) [LUserdata h1, LUserdata h2] 1
   \<and> FunctionWrapper_call E [] (Returning (\<lambda>args M. (NInt 0, M)))
       [TUserType ''A'', TUserType ''A'']
       [LUserdata \<lparr>owns = False, tag = ''A'', target = 0\<rparr>,
        LUserdata \<lparr>owns = False, tag = ''A'', target = 1\<rparr>] [10, 20] [0, 1]
     = ([Converted 0, Converted 1, Invoked [NObject ''A'' 0, NObject ''A'' 0]],
        Inr (1, [LUserdata \<lparr>owns = False, tag = ''A'', target = 0\<rparr>,
                 LUserdata \<lparr>owns = False, tag = ''A'', target = 1\<rparr>, LInteger 0],
             [10, 20]))"
  by (simp add: CallHelper_call_def ConvertArgs_convert_def lua_isuserdata_def lua_touserdata_def
     index2value_def UserObject_ref_def arguments_def CallReturnCopy_value_def with_memory_def
     lua_pushinteger_def to_lua_Integer_def)

subsection \<open>The type check of user-type arguments\<close>

text \<open>
  C2. In every call in which the parameter at position \<open>p + 1\<close> (counted from 1) is
  declared as a user type and the stack slot at that position is no userdata, the
  conversion of that argument raises the engine error
  \<^verbatim>\<open>Argument <p+1>: expecting user data\<close>. Whatever the order of the conversions, the
  call fails and the native callable is never invoked: the call ends with the failure of
  the first conversion, in the order of evaluation, that fails on the stack as the call
  found it, after the conversions evaluated before that one and before any later one.
  The call fails with the error citing \<open>p + 1\<close> when every conversion evaluated before
  that of argument \<open>p + 1\<close> succeeds.
\<close>

theorem UserType_argument_type_error:
  assumes "p < length P" and "P ! p = TUserType T" and "\<not> lua_isuserdata L (p + 1)"
    and "sort ord = [0..<length P]"
  shows "ConvertArgs_convert E (P ! p) L p =
           Inl (LuaError (''Argument '' @ decimal (p + 1) @ '': expecting user data''))
       \<and> (\<exists>pre q post e. ord = pre @ q # post \<and> p \<notin> set pre
             \<and> FunctionWrapper_call E FPolicies f P L M ord = (map Converted pre, Inl e)
             \<and> read_argument E P L q = Inl e
             \<and> (\<forall>r\<in>set pre. \<exists>v. read_argument E P L r = Inr v))
       \<and> ((\<forall>q\<in>set (takeWhile (\<lambda>q. q \<noteq> p) ord). \<exists>v. read_argument E P L q = Inr v) \<longrightarrow>
            FunctionWrapper_call E FPolicies f P L M ord =
              (map Converted (takeWhile (\<lambda>q. q \<noteq> p) ord),
               Inl (LuaError (''Argument '' @ decimal (p + 1) @ '': expecting user data''))))"
proof (intro conjI impI)
  let ?err = "LuaError (''Argument '' @ decimal (p + 1) @ '': expecting user data'')"
  let ?AIs = "zip P [0..<length P]"
  note eo = evaluation_order [OF assms(4)]
  show rd: "ConvertArgs_convert E (P ! p) L p = Inl ?err"
    using not_userdata_read [OF assms(2,3)] by (simp add: luaL_error_expecting_user_data_def)
  then have ra: "read_argument E P L p = Inl ?err"
    by (simp add: read_argument_def)
  show "\<exists>pre q post e. ord = pre @ q # post \<and> p \<notin> set pre
             \<and> FunctionWrapper_call E FPolicies f P L M ord = (map Converted pre, Inl e)
             \<and> read_argument E P L q = Inl e
             \<and> (\<forall>r\<in>set pre. \<exists>v. read_argument E P L r = Inr v)"
  proof -
    obtain evs r where c: "convert_args E ?AIs ord L = (evs, r)"
      by (cases "convert_args E ?AIs ord L")
    have "\<exists>e. r = Inl e"
    proof (cases r)
      case (Inr x)
      obtain vs L' where "x = (vs, L')" by (cases x)
      with c Inr convert_args_by_position(2) [OF assms(4), of E L evs vs L'] assms(1) ra
      show ?thesis by auto
    qed simp
    then obtain e where e: "r = Inl e" ..
    from convert_args_first_failure [OF assms(4)] c e
    obtain pre q post where s: "ord = pre @ q # post" "evs = map Converted pre"
      "read_argument E P L q = Inl e" "\<forall>r\<in>set pre. \<exists>v. read_argument E P L r = Inr v"
      by blast
    from s(4) ra have "p \<notin> set pre" by auto
    moreover from call_failure c e s(2)
    have "FunctionWrapper_call E FPolicies f P L M ord = (map Converted pre, Inl e)" by blast
    ultimately show ?thesis using s(1,3,4) by blast
  qed
next
  let ?err = "LuaError (''Argument '' @ decimal (p + 1) @ '': expecting user data'')"
  let ?AIs = "zip P [0..<length P]"
  let ?pre = "takeWhile (\<lambda>q. q \<noteq> p) ord"
  let ?post = "dropWhile (\<lambda>q. q \<noteq> p) ord"
  note eo = evaluation_order [OF assms(4)]
  assume ok: "\<forall>q\<in>set ?pre. \<exists>v. read_argument E P L q = Inr v"
  have ra: "read_argument E P L p = Inl ?err"
    using not_userdata_read [OF assms(2,3)]
    by (simp add: read_argument_def luaL_error_expecting_user_data_def)
  from eo assms(1) have "p \<in> set ord" by simp
  then obtain rest where post: "?post = p # rest"
    by (metis (mono_tags, lifting) dropWhile_eq_Nil_conv hd_dropWhile list.collapse)
  have split: "ord = ?pre @ p # rest"
    using takeWhile_dropWhile_id [of "\<lambda>q. q \<noteq> p" ord] post by simp
  have dpre: "distinct ?pre" using eo(1) by (rule distinct_takeWhile)
  have spre: "set ?pre \<subseteq> {0..<length P}" using eo(2) set_takeWhileD by fastforce
  have "\<exists>vs L'. convert_args E ?AIs ?pre L = (map Converted ?pre, Inr (vs, L'))"
    by (rule convert_args_success [OF dpre spre stack_coerced_refl]) (use ok in simp_all)
  then obtain vs L1 where pre: "convert_args E ?AIs ?pre L = (map Converted ?pre, Inr (vs, L1))"
    by blast
  have co: "stack_coerced E L L1" using pre by (rule convert_args_coerced)
  have "p \<notin> set ?pre" by (auto dest: set_takeWhileD)
  then have "p + 1 \<notin> Suc ` set ?pre" by auto
  from convert_args_other_slots [OF spre pre this]
  have "index2value L1 (p + 1) = index2value L (p + 1)" .
  from convert_args_step [OF assms(1) co this] ra
  have "ConvertArgs_convert E (fst (?AIs ! p)) L1 (snd (?AIs ! p)) = Inl ?err"
    by (cases "ConvertArgs_convert E (fst (?AIs ! p)) L1 (snd (?AIs ! p))") auto
  then have "convert_args E ?AIs (p # rest) L1 = ([], Inl ?err)" by simp
  with pre have "convert_args E ?AIs (?pre @ p # rest) L = (map Converted ?pre, Inl ?err)"
    by (simp add: convert_args_append)
  with split have "convert_args E ?AIs ord L = (map Converted ?pre, Inl ?err)" by simp
  then show "FunctionWrapper_call E FPolicies f P L M ord = (map Converted ?pre, Inl ?err)"
    by (rule call_failure)
qed

text \<open>The specification's scenario: the second parameter is a user type, the slot
  holds a plain integer. The error cites argument 2; the callable, which would set a
  counter in memory, does not run.\<close>

theorem UserType_argument_type_error_witness:
  "(1::nat) < length [TIntegral (TSigned 32), TUserType ''A'']
   \<and> [TIntegral (TSigned 32), TUserType ''A''] ! 1 = TUserType ''A''
   \<and> \<not> lua_isuserdata [LInteger 1, LInteger 5] (1 + 1)
   \<and> sort [0, 1] = [0..<length [TIntegral (TSigned 32), TUserType ''A'']]
   \<and> FunctionWrapper_call plain_engine [] (ReturningVoid (\<lambda>args M. M[0 := 1]))
         [TIntegral (TSigned 32), TUserType ''A''] [LInteger 1, LInteger 5] [0] [0, 1]
       = ([Converted 0], Inl (LuaError ''Argument 2: expecting user data''))"
proof -
  let ?P = "[TIntegral (TSigned 32), TUserType ''A'']"
  let ?L = "[LInteger 1, LInteger 5]"
  have h1: "(1::nat) < length ?P" by simp
  have h2: "?P ! 1 = TUserType ''A''" by simp
  have h3: "\<not> lua_isuserdata ?L (1 + 1)" by (simp add: lua_isuserdata_def index2value_def)
  have h4: "sort [0, 1] = [0..<length ?P]" by (simp add: upt_rec)
  have pre: "takeWhile (\<lambda>q. q \<noteq> 1) [0, 1::nat] = [0]" by simp
  have ok: "\<forall>q\<in>set (takeWhile (\<lambda>q. q \<noteq> 1) [0, 1::nat]). \<exists>v. read_argument plain_engine ?P ?L q = Inr v"
    by (simp add: read_argument_def ConvertArgs_convert_def)
  from UserType_argument_type_error [OF h1 h2 h3 h4, of plain_engine "[]" "ReturningVoid (\<lambda>args M. M[0 := 1])" "[0]"] ok
  have "FunctionWrapper_call plain_engine [] (ReturningVoid (\<lambda>args M. M[0 := 1])) ?P ?L [0] [0, 1]
       = (map Converted (takeWhile (\<lambda>q. q \<noteq> 1) [0, 1::nat]), Inl (LuaError (''Argument '' @ decimal (1 + 1) @ '': expecting user data'')))"
    by blast
  then have "FunctionWrapper_call plain_engine [] (ReturningVoid (\<lambda>args M. M[0 := 1])) ?P ?L [0] [0, 1]
       = ([Converted 0], Inl (LuaError ''Argument 2: expecting user data''))"
    by (simp add: pre)
  with h1 h2 h3 h4 show ?thesis by blast
qed

text \<open>The error of a call need not cite the argument: with two user-type parameters on
  two integers, converted in declaration order, the call fails with the error of the
  first argument and the second conversion is not reached. And where the user-type
  argument before it passes its test but is fetched from slot 1, which holds an integer,
  the call ends in undefined behaviour.\<close>

theorem UserType_argument_type_error_counterexample:
  "[TUserType ''A'', TUserType ''A''] ! 1 = TUserType ''A''
   \<and> \<not> lua_isuserdata [LInteger 5, LInteger 7] (1 + 1)
   \<and> FunctionWrapper_call plain_engine [] (ReturningVoid (\<lambda>args M. M))
        [TUserType ''A'', TUserType ''A''] [LInteger 5, LInteger 7] [] [0, 1]
      = ([], Inl (LuaError ''Argument 1: expecting user data''))
   \<and> [TIntegral (TSigned 32), TUserType ''A'', TUserType ''A''] ! 2 = TUserType ''A''
   \<and> \<not> lua_isuserdata
         [LInteger 7, LUserdata \<lparr>owns = False, tag = ''A'', target = 0\<rparr>, LInteger 5] (2 + 1)
   \<and> FunctionWrapper_call plain_engine [] (ReturningVoid (\<lambda>args M. M))
        [TIntegral (TSigned 32), TUserType ''A'', TUserType ''A'']
        [LInteger 7, LUserdata \<lparr>owns = False, tag = ''A'', target = 0\<rparr>, LInteger 5] []
        [0, 1, 2]
      = ([Converted 0], Inl UndefinedBehaviour)"
  by (simp add: CallHelper_void_call_def ConvertArgs_convert_def lua_tointeger_def
      lua_isuserdata_def lua_touserdata_def luaL_error_expecting_user_data_def
      index2value_def)

subsection \<open>Policy resolution\<close>

text \<open>
  C3. For every declared policy list, the return-handling strategy is the one of the
  first entry, scanning left to right, that is a known policy tag (ReturnCopy or
  ReturnInternalRef); on the empty list it is CopyReturn. The template recursion of the
  source computes exactly the first-match resolution of the specification.
\<close>

theorem ChooseCallReturner_first_match:
  "ChooseCallReturner Ps = resolve_policy Ps \<and> ChooseCallReturner [] = CallReturnCopy"
proof
  show "ChooseCallReturner Ps = resolve_policy Ps"
    by (induction Ps rule: ChooseCallReturner.induct) (simp_all add: resolve_policy_def)
  show "ChooseCallReturner [] = CallReturnCopy"
    by simp
qed

subsection \<open>Returning user types\<close>

text \<open>
  C4. Under the CopyReturn policy a returned value of a user type is copied by
  \<^verbatim>\<open>makeCopy\<close> into a new handle that owns its copy, and that handle is written to the
  stack as userdata, one result. The handle is independent of the original: it shows the
  value the object had when it was returned, also after the original object is changed.
\<close>

theorem CallReturnCopy_UserType_independent:
  assumes "a < length M"
  shows "CallReturnCopy_value (NObject c a) L M =
           Inr (1, L @ [LUserdata \<lparr>owns = True, tag = c, target = length M\<rparr>], M @ [M ! a])
         \<and> handle_value (M @ [M ! a]) \<lparr>owns = True, tag = c, target = length M\<rparr> = Some (M ! a)
         \<and> handle_value ((M @ [M ! a])[a := x]) \<lparr>owns = True, tag = c, target = length M\<rparr> = Some (M ! a)"
  using assms
  by (simp add: CallReturnCopy_value_def with_memory_def pushUserObject_def handle_value_def
      nth_list_update nth_append)

theorem CallReturnCopy_UserType_independent_witness:
  "(0::nat) < length [10, 20 :: int]
   \<and> CallReturnCopy_value (NObject ''A'' 0) [] [10, 20] =
       Inr (1, [LUserdata \<lparr>owns = True, tag = ''A'', target = 2\<rparr>], [10, 20, 10])
   \<and> handle_value ([10, 20, 10][0 := 99]) \<lparr>owns = True, tag = ''A'', target = 2\<rparr> = Some 10"
  using CallReturnCopy_UserType_independent [of 0 "[10, 20]" "''A''" "[]" 99]
  by (simp add: numeral_2_eq_2)

text \<open>
  C5. Under the InternalRefReturn policy a returned value that is of a user type, or is
  itself a handle, is wrapped by \<^verbatim>\<open>makeRef\<close> in a handle that owns nothing and refers
  to the storage of the native object, and that handle is written to the stack as
  userdata, one result. The handle is an alias of the original: after the original object
  is changed, the handle shows the new value.
\<close>

theorem CallReturnInternalRef_aliases:
  "CallReturnInternalRef_value (NObject c a) L M =
     Inr (1, L @ [LUserdata \<lparr>owns = False, tag = c, target = a\<rparr>], M)
   \<and> CallReturnInternalRef_value (NHandle h) L M =
     Inr (1, L @ [LUserdata (h\<lparr>owns := False\<rparr>)], M)
   \<and> (a < length M \<longrightarrow>
        handle_value (M[a := x]) \<lparr>owns = False, tag = c, target = a\<rparr> = Some x)
   \<and> (target h < length M \<longrightarrow>
        handle_value (M[target h := x]) (h\<lparr>owns := False\<rparr>) = Some x)"
  by (simp add: CallReturnInternalRef_value_def with_memory_def pushUserObject_def
      handle_value_def)

theorem CallReturnInternalRef_aliases_witness:
  "(0::nat) < length [10, 20 :: int]
   \<and> CallReturnInternalRef_value (NObject ''A'' 0) [] [10, 20] =
       Inr (1, [LUserdata \<lparr>owns = False, tag = ''A'', target = 0\<rparr>], [10, 20])
   \<and> handle_value ([10, 20][0 := 99]) \<lparr>owns = False, tag = ''A'', target = 0\<rparr> = Some 99"
  using CallReturnInternalRef_aliases [of "''A''" 0 "[]" "[10, 20]" _ 99]
  by simp

subsection \<open>Conversion and invocation\<close>

text \<open>
  C6. In every dispatched call the conversions run one after the other, in the order in
  which the compiler evaluates the argument expressions of the call, and none is
  interleaved with the invocation. When all of them succeed, each parameter has been
  converted exactly once, every conversion has completed, and the native callable is
  invoked as the last event, with the values the conversions give, by position, on the
  stack as the call found it. When a conversion fails, the conversions evaluated before
  it have completed, it is the first that fails on the stack as the call found it, no
  later conversion runs and the callable is not invoked. The order of evaluation is not
  fixed by the code; it is the declaration order where a compiler evaluates the
  arguments of a call left to right.
\<close>

theorem conversions_complete_before_invocation:
  assumes "sort ord = [0..<length P]"
  shows "(\<exists>args r. FunctionWrapper_call E FPolicies f P L M ord =
            (map Converted ord @ [Invoked args], r)
          \<and> map Inr args = map (read_argument E P L) [0..<length P])
       \<or> (\<exists>pre q post e. ord = pre @ q # post
          \<and> FunctionWrapper_call E FPolicies f P L M ord = (map Converted pre, Inl e)
          \<and> read_argument E P L q = Inl e
          \<and> (\<forall>r\<in>set pre. \<exists>v. read_argument E P L r = Inr v))"
proof -
  let ?AIs = "zip P [0..<length P]"
  obtain evs r where c: "convert_args E ?AIs ord L = (evs, r)"
    by (cases "convert_args E ?AIs ord L")
  show ?thesis
  proof (cases r)
    case (Inl e)
    from convert_args_first_failure [OF assms] c Inl
    obtain pre q post where s: "ord = pre @ q # post" "evs = map Converted pre"
      "read_argument E P L q = Inl e" "\<forall>r\<in>set pre. \<exists>v. read_argument E P L r = Inr v"
      by blast
    from call_failure c Inl s(2)
    have "FunctionWrapper_call E FPolicies f P L M ord = (map Converted pre, Inl e)" by blast
    with s show ?thesis by blast
  next
    case (Inr x)
    obtain vs L' where x: "x = (vs, L')" by (cases x)
    from c Inr x have c': "convert_args E ?AIs ord L = (evs, Inr (vs, L'))" by simp
    from convert_args_log [OF c'] have "evs = map Converted ord" by simp
    with call_invokes [OF c', of FPolicies f M] convert_args_reads [OF assms c']
    show ?thesis by blast
  qed
qed

text \<open>A call with the second argument converted first: both conversions complete, then
  the callable is invoked with the arguments in the order of the parameters.\<close>

theorem conversions_complete_before_invocation_witness:
  "sort [1, 0] = [0..<length [TStringView, TIntegral (TSigned 32)]]
   \<and> FunctionWrapper_call plain_engine [] (Returning (\<lambda>args M. (NInt 7, M)))
        [TStringView, TIntegral (TSigned 32)] [LInteger 42, LInteger 3] [] [1, 0]
     = (map Converted [1, 0] @ [Invoked [NStringView (Some ''42'') 2, NInt 3]],
        Inr (1, [LString ''42'', LInteger 3, LInteger 7], []))
   \<and> map Inr [NStringView (Some ''42'') 2, NInt 3]
     = map (read_argument plain_engine [TStringView, TIntegral (TSigned 32)]
              [LInteger 42, LInteger 3])
         [0..<length [TStringView, TIntegral (TSigned 32)]]"
proof -
  let ?P = "[TStringView, TIntegral (TSigned 32)]"
  let ?L = "[LInteger 42, LInteger 3]"
  have h: "sort [1, 0] = [0..<length ?P]" by (simp add: upt_rec)
  have e: "FunctionWrapper_call plain_engine [] (Returning (\<lambda>args M. (NInt 7, M)))
        ?P ?L [] [1, 0]
     = (map Converted [1, 0] @ [Invoked [NStringView (Some ''42'') 2, NInt 3]],
        Inr (1, [LString ''42'', LInteger 3, LInteger 7], []))"
    by (simp add: CallHelper_call_def ConvertArgs_convert_def lua_tointeger_def
        lua_tostring_def index2value_def arguments_def plain_engine_def c_str_def
        CallReturnCopy_value_def with_memory_def lua_pushinteger_def to_lua_Integer_def)
  from conversions_complete_before_invocation [OF h, of plain_engine "[]"
      "Returning (\<lambda>args M. (NInt 7, M))" ?L "[]"] e
  have "map Inr [NStringView (Some ''42'') 2, NInt 3]
     = map (read_argument plain_engine ?P ?L) [0..<length ?P]"
    by auto
  with h e show ?thesis by blast
qed

text \<open>The conversions need not run in declaration order: where the compiler evaluates
  the arguments of a call right to left, the second parameter is converted first. The
  order shows in the outcome of a call: with two user-type parameters on two integers,
  the error cites argument 2 under that order and argument 1 under the declaration
  order.\<close>

theorem conversion_order_counterexample:
  "sort [1, 0] = [0..<length [TIntegral (TSigned 32), TIntegral (TSigned 32)]]
   \<and> fst (FunctionWrapper_call plain_engine [] (ReturningVoid (\<lambda>args M. M))
        [TIntegral (TSigned 32), TIntegral (TSigned 32)] [LInteger 1, LInteger 2] [] [1, 0])
     = [Converted 1, Converted 0, Invoked [NInt 1, NInt 2]]
   \<and> FunctionWrapper_call plain_engine [] (ReturningVoid (\<lambda>args M. M))
        [TUserType ''A'', TUserType ''A''] [LInteger 1, LInteger 2] [] [1, 0]
     = ([], Inl (LuaError ''Argument 2: expecting user data''))
   \<and> FunctionWrapper_call plain_engine [] (ReturningVoid (\<lambda>args M. M))
        [TUserType ''A'', TUserType ''A''] [LInteger 1, LInteger 2] [] [0, 1]
     = ([], Inl (LuaError ''Argument 1: expecting user data''))"
  by (simp add: CallHelper_void_call_def ConvertArgs_convert_def lua_tointeger_def
      lua_isuserdata_def luaL_error_expecting_user_data_def index2value_def arguments_def
      upt_rec)

subsection \<open>Numbers written and read back\<close>

lemma from_to_lua_Integer:
  assumes "in_range t v" and "width t \<le> 64"
  shows "from_lua_Integer t (to_lua_Integer v) = v"
proof (cases t)
  case TBool
  with assms show ?thesis by (auto simp: to_lua_Integer_def)
next
  case (TUnsigned w)
  with assms have v: "0 \<le> v" "v < 2 ^ w" and w: "w \<le> 64" by simp_all
  have "sint (word_of_int v :: 64 word) mod 2 ^ w = take_bit w (signed_take_bit 63 v)"
    by (simp add: sint_sbintrunc' take_bit_eq_mod)
  also have "\<dots> = take_bit w v"
    using w by (simp add: take_bit_signed_take_bit)
  also have "\<dots> = v"
    using v by (simp add: take_bit_int_eq_self)
  finally show ?thesis using TUnsigned by (simp add: to_lua_Integer_def)
next
  case (TSigned w)
  with assms have w: "0 < w" "w \<le> 64" and v: "- (2 ^ (w - 1)) \<le> v" "v < 2 ^ (w - 1)"
    by simp_all
  have p: "(2::int) ^ (w - 1) \<le> 2 ^ 63"
    using w by (intro power_increasing) auto
  have "sint (word_of_int v :: 64 word) = signed_take_bit 63 v"
    by (simp add: sint_sbintrunc')
  also have "\<dots> = v"
    using v p by (intro signed_take_bit_int_eq_self) auto
  finally have s: "sint (word_of_int v :: 64 word) = v" .
  have "(2::int) ^ w = 2 * 2 ^ (w - 1)"
    using w by (cases w) simp_all
  with v have "(v + 2 ^ (w - 1)) mod 2 ^ w = v + 2 ^ (w - 1)"
    by (intro mod_pos_pos_trivial) auto
  with s TSigned show ?thesis by (simp add: to_lua_Integer_def)
qed

text \<open>
  C7. An integral value in the range of a native integral type of at most 64 bits, and a
  finite floating-point value of a native floating type all of whose values are values
  of \<^verbatim>\<open>lua_Number\<close>, as those of \<^verbatim>\<open>float\<close> and \<^verbatim>\<open>double\<close> are, is read back as the
  same value from the slot it was written to. The stack is shorter than \<^verbatim>\<open>INT_MAX\<close>,
  as every stack of the engine is.
\<close>

theorem number_write_then_read:
  assumes "length L < 2147483647"
  shows "(in_range t v \<and> width t \<le> 64 \<longrightarrow>
            LuaValueWriter_push (NInt v) L = Inr (1, L @ [LInteger (to_lua_Integer v)])
          \<and> LuaValueReader_convert E (TIntegral t) (L @ [LInteger (to_lua_Integer v)])
               (length L + 1)
             = Inr (NInt v, L @ [LInteger (to_lua_Integer v)]))
       \<and> (fp_in_range F x \<and> format_within F binary64 \<longrightarrow>
            LuaValueWriter_push (NFloat x) L = Inr (1, L @ [LNumber (to_lua_Number x)])
          \<and> LuaValueReader_convert E (TFloatingPoint F) (L @ [LNumber (to_lua_Number x)])
               (length L + 1)
             = Inr (NFloat x, L @ [LNumber (to_lua_Number x)]))"
proof (intro conjI impI)
  assume "in_range t v \<and> width t \<le> 64"
  then have "from_lua_Integer t (to_lua_Integer v) = v"
    by (simp add: from_to_lua_Integer)
  then show "LuaValueReader_convert E (TIntegral t) (L @ [LInteger (to_lua_Integer v)])
               (length L + 1)
             = Inr (NInt v, L @ [LInteger (to_lua_Integer v)])"
    by (simp add: lua_tointeger_def index2value_def)
next
  assume "fp_in_range F x \<and> format_within F binary64"
  then have "from_lua_Number F (to_lua_Number x) = x"
    by (simp add: from_to_lua_Number)
  then show "LuaValueReader_convert E (TFloatingPoint F) (L @ [LNumber (to_lua_Number x)])
               (length L + 1)
             = Inr (NFloat x, L @ [LNumber (to_lua_Number x)])"
    by (simp add: lua_tonumber_def index2value_def)
qed (simp_all add: lua_pushinteger_def lua_pushnumber_def)

text \<open>The value \<open>-1\<close> of a signed 8-bit type and the value 1.5 of \<^verbatim>\<open>float\<close>, written
  above one slot and read back.\<close>

theorem number_write_then_read_witness:
  "length [LNil] < 2147483647
   \<and> in_range (TSigned 8) (- 1) \<and> width (TSigned 8) \<le> 64
   \<and> LuaValueWriter_push (NInt (- 1)) [LNil] = Inr (1, [LNil, LInteger (- 1)])
   \<and> LuaValueReader_convert plain_engine (TIntegral (TSigned 8)) [LNil, LInteger (- 1)] 2
      = Inr (NInt (- 1), [LNil, LInteger (- 1)])
   \<and> fp_in_range binary32 (Fin False 3 (- 1)) \<and> format_within binary32 binary64
   \<and> LuaValueWriter_push (NFloat (Fin False 3 (- 1))) [LNil]
      = Inr (1, [LNil, LNumber (Fin False 3 (- 1))])
   \<and> LuaValueReader_convert plain_engine (TFloatingPoint binary32)
        [LNil, LNumber (Fin False 3 (- 1))] 2
      = Inr (NFloat (Fin False 3 (- 1)), [LNil, LNumber (Fin False 3 (- 1))])"
proof -
  have h0: "length [LNil] < 2147483647" by simp
  have h1: "in_range (TSigned 8) (- 1) \<and> width (TSigned 8) \<le> 64" by simp
  have h2: "fp_in_range binary32 (Fin False 3 (- 1)) \<and> format_within binary32 binary64"
    by (simp add: binary32_def binary64_def format_within_def bit_length.simps)
  have i: "to_lua_Integer (- 1) = - 1" by (simp add: to_lua_Integer_def)
  have n: "to_lua_Number (Fin False 3 (- 1)) = Fin False 3 (- 1)"
    by (simp add: to_lua_Number_def binary64_def finite_or_overflow_def bit_length.simps
        normal.simps)
  from number_write_then_read [OF h0, of "TSigned 8" "- 1" plain_engine binary32
      "Fin False 3 (- 1)"] h1 h2
  show ?thesis by (simp add: i n numeral_2_eq_2)
qed

text \<open>
  The value \<open>2 ^ 64\<close> of a signed 128-bit integer type is written as the engine integer 0
  and read back as 0. The value \<open>2 ^ 64 - 1\<close> of the 80-bit \<^verbatim>\<open>long double\<close> is no value of
  a double: it is written as \<open>2 ^ 64\<close> and read back as \<open>2 ^ 64\<close>.
\<close>

theorem number_write_then_read_counterexample:
  "in_range (TSigned 128) (2 ^ 64)
   \<and> LuaValueWriter_push (NInt (2 ^ 64)) [] = Inr (1, [LInteger 0])
   \<and> LuaValueReader_convert plain_engine (TIntegral (TSigned 128)) [LInteger 0] 1
      = Inr (NInt 0, [LInteger 0])
   \<and> fp_in_range x87_extended (Fin False (2 ^ 64 - 1) 0)
   \<and> LuaValueWriter_push (NFloat (Fin False (2 ^ 64 - 1) 0)) []
      = Inr (1, [LNumber (Fin False 1 64)])
   \<and> LuaValueReader_convert plain_engine (TFloatingPoint x87_extended)
        [LNumber (Fin False 1 64)] 1
      = Inr (NFloat (Fin False 1 64), [LNumber (Fin False 1 64)])"
  by (simp add: lua_pushinteger_def lua_pushnumber_def to_lua_Integer_def to_lua_Number_def
      from_lua_Number_def lua_tointeger_def lua_tonumber_def index2value_def
      binary64_def x87_extended_def finite_or_overflow_def round_half_even_def
      bit_length.simps normal.simps)

subsection \<open>Returning other values\<close>

text \<open>
  C8. For a returned value that is neither of a user type nor a handle, the
  InternalRefReturn strategy does what the CopyReturn strategy does: both pass the value
  to the value writer, with the same effect on the stack and the same result count. So
  for such a value every policy list gives the plain write.
\<close>

theorem InternalRef_same_as_Copy:
  assumes "\<not> IsUserType v" and "\<not> IsUserObject v"
  shows "CallReturnInternalRef_value v L M = CallReturnCopy_value v L M
         \<and> CallReturnCopy_value v L M = with_memory M (LuaValueWriter_push v L)
         \<and> CallReturner_value (ChooseCallReturner FPolicies) v L M =
             with_memory M (LuaValueWriter_push v L)"
  using assms
  by (cases "ChooseCallReturner FPolicies")
    (simp_all add: CallReturnInternalRef_value_def CallReturnCopy_value_def)

theorem InternalRef_same_as_Copy_witness:
  "\<not> IsUserType (NInt 5) \<and> \<not> IsUserObject (NInt 5)
   \<and> CallReturnInternalRef_value (NInt 5) [] [] = CallReturnCopy_value (NInt 5) [] []
   \<and> CallReturnCopy_value (NInt 5) [] [] = Inr (1, [LInteger 5], [])"
proof -
  have h1: "\<not> IsUserType (NInt 5)" and h2: "\<not> IsUserObject (NInt 5)" by simp_all
  have "with_memory [] (LuaValueWriter_push (NInt 5) []) = Inr (1, [LInteger 5], [])"
    by (simp add: with_memory_def lua_pushinteger_def to_lua_Integer_def)
  with InternalRef_same_as_Copy [OF h1 h2, of "[]" "[]" "[]"] h1 h2 show ?thesis by simp
qed

subsection \<open>Functions returning \<^verbatim>\<open>void\<close>\<close>

text \<open>
  C9. A call of a function whose return type is \<^verbatim>\<open>void\<close>, in which every argument
  conversion succeeds, invokes the callable, pushes no value and reports zero results,
  whatever the arguments: the stack keeps its height, and every slot is as it was or,
  for a number read as a string view, converted in place to its string by the engine;
  with no string-view parameter the stack is unchanged. When an argument conversion
  fails, the callable is not invoked and no count is reported: the call ends with the
  failure of the first conversion that fails.
\<close>

theorem void_call_reports_zero:
  assumes "sort ord = [0..<length P]"
  shows "(\<exists>args L'. FunctionWrapper_call E FPolicies (ReturningVoid func) P L M ord =
            (map Converted ord @ [Invoked args], Inr (0, L', func args M))
          \<and> map Inr args = map (read_argument E P L) [0..<length P]
          \<and> length L' = length L \<and> stack_coerced E L L'
          \<and> (TStringView \<notin> set P \<longrightarrow> L' = L))
       \<or> (\<exists>pre q post e. ord = pre @ q # post
          \<and> FunctionWrapper_call E FPolicies (ReturningVoid func) P L M ord =
              (map Converted pre, Inl e)
          \<and> read_argument E P L q = Inl e
          \<and> (\<forall>r\<in>set pre. \<exists>v. read_argument E P L r = Inr v))"
proof -
  let ?AIs = "zip P [0..<length P]"
  note eo = evaluation_order [OF assms]
  obtain evs r where c: "convert_args E ?AIs ord L = (evs, r)"
    by (cases "convert_args E ?AIs ord L")
  show ?thesis
  proof (cases r)
    case (Inl e)
    from convert_args_first_failure [OF assms] c Inl
    obtain pre q post where s: "ord = pre @ q # post" "evs = map Converted pre"
      "read_argument E P L q = Inl e" "\<forall>r\<in>set pre. \<exists>v. read_argument E P L r = Inr v"
      by blast
    from call_failure c Inl s(2)
    have "FunctionWrapper_call E FPolicies (ReturningVoid func) P L M ord =
        (map Converted pre, Inl e)" by blast
    with s show ?thesis by blast
  next
    case (Inr x)
    obtain vs L' where x: "x = (vs, L')" by (cases x)
    from c Inr x have c': "convert_args E ?AIs ord L = (evs, Inr (vs, L'))" by simp
    from convert_args_log [OF c'] have evs: "evs = map Converted ord" by simp
    have co: "stack_coerced E L L'" using c' by (rule convert_args_coerced)
    then have len: "length L' = length L" by (rule stack_coerced_length)
    have keep: "TStringView \<notin> set P \<longrightarrow> L' = L"
      using convert_args_keeps_stack [OF _ _ c'] eo(2) by simp
    from void_call_result [OF c', of FPolicies func M] evs co len keep
      convert_args_reads [OF assms c']
    show ?thesis by blast
  qed
qed

theorem void_call_reports_zero_witness:
  "sort [1, 0] = [0..<length [TStringView, TIntegral TBool]]
   \<and> FunctionWrapper_call plain_engine [ReturnInternalRef] (ReturningVoid (\<lambda>args M. M[0 := 1]))
        [TStringView, TIntegral TBool] [LInteger 42, LNil] [0] [1, 0]
     = ([Converted 1, Converted 0, Invoked [NStringView (Some ''42'') 2, NInt 0]],
        Inr (0, [LString ''42'', LNil], [1]))"
proof -
  have h: "sort [1, 0] = [0..<length [TStringView, TIntegral TBool]]" by (simp add: upt_rec)
  from void_call_reports_zero [OF h, of plain_engine "[ReturnInternalRef]"
      "\<lambda>args M. M[0 := 1]" "[LInteger 42, LNil]" "[0]"] h
  show ?thesis
    by (simp add: CallHelper_void_call_def ConvertArgs_convert_def lua_tointeger_def
        lua_tostring_def index2value_def arguments_def plain_engine_def c_str_def)
qed

text \<open>A call of a \<^verbatim>\<open>void\<close> function need not report zero results, and it can change
  a slot of the stack: with a user-type parameter on an integer the call raises the
  engine error and reports no count; with a string-view parameter on the number 42 the
  engine converts the slot to the string in place.\<close>

theorem void_call_reports_zero_counterexample:
  "FunctionWrapper_call plain_engine [] (ReturningVoid (\<lambda>args M. M))
     [TUserType ''A''] [LInteger 5] [] [0]
   = ([], Inl (LuaError ''Argument 1: expecting user data''))
   \<and> FunctionWrapper_call plain_engine [] (ReturningVoid (\<lambda>args M. M))
       [TStringView] [LInteger 42] [] [0]
     = ([Converted 0, Invoked [NStringView (Some ''42'') 2]], Inr (0, [LString ''42''], []))"
  by (simp add: CallHelper_void_call_def ConvertArgs_convert_def lua_isuserdata_def
      luaL_error_expecting_user_data_def lua_tostring_def index2value_def arguments_def
      plain_engine_def c_str_def)

subsection \<open>Arguments read without a type check\<close>

text \<open>
  The readers for integral, floating-point and enumeration parameters return what the
  engine's coercion of the slot gives, converted to the parameter's type, whatever the
  slot holds, and leave the stack as it is; for a slot that is neither a number nor a
  string the engine gives zero. The reader for a string view, on a slot that holds a
  string or a number, returns a view of the engine's string.
\<close>

lemma unchecked_reads:
  assumes "i \<le> 2147483647"
  shows "LuaValueReader_convert E (TIntegral t) L i =
     Inr (NInt (from_lua_Integer t (lua_tointeger E L i)), L)"
    and "LuaValueReader_convert E (TFloatingPoint F) L i =
     Inr (NFloat (from_lua_Number F (lua_tonumber E L i)), L)"
    and "LuaValueReader_convert E TEnum L i = Inr (NEnum (lua_tointeger E L i), L)"
    and "\<not> numeric_or_string (index2value L i) \<Longrightarrow>
     lua_tointeger E L i = 0 \<and> lua_tonumber E L i = Fin False 0 0"
    and "index2value L i = Some (LString s) \<Longrightarrow>
     LuaValueReader_convert E TStringView L i =
       Inr (NStringView (Some (c_str s)) (length (c_str s)), L)"
  by (cases "index2value L i" rule: numeric_or_string.cases;
      simp add: lua_tointeger_def lua_tonumber_def lua_tostring_def)+

text \<open>
  In a call in which every parameter is read without a type check on a slot for which
  the read is defined, or is a parameter whose own conversion succeeds, the native
  callable is invoked, whatever the order of the conversions.
\<close>

lemma unchecked_parameters_never_raise:
  assumes "sort ord = [0..<length P]"
    and "\<forall>p<length P. unchecked_read_defined (P ! p) (index2value L (p + 1))
           \<or> (\<exists>v. read_argument E P L p = Inr v)"
  shows "\<exists>args r. FunctionWrapper_call E FPolicies f P L M ord =
              (map Converted ord @ [Invoked args], r)
            \<and> map Inr args = map (read_argument E P L) [0..<length P]"
proof -
  let ?AIs = "zip P [0..<length P]"
  have "\<forall>q<length P. \<exists>v. read_argument E P L q = Inr v"
  proof (intro allI impI)
    fix q assume q: "q < length P"
    with assms(2) consider "unchecked_read_defined (P ! q) (index2value L (q + 1))"
      | "\<exists>v. read_argument E P L q = Inr v" by blast
    then show "\<exists>v. read_argument E P L q = Inr v"
    proof cases
      case 1
      from unchecked_read [OF this] obtain v L'
        where "ConvertArgs_convert E (P ! q) L q = Inr (v, L')" by blast
      then show ?thesis by (simp add: read_argument_def)
    qed
  qed
  from convert_args_total [OF assms(1) this]
  obtain vs L' where c: "convert_args E ?AIs ord L = (map Converted ord, Inr (vs, L'))" by blast
  from call_invokes [OF c, of FPolicies f M] convert_args_reads [OF assms(1) c]
  show ?thesis by blast
qed

text \<open>
  C10. Only arguments declared as a user type are type-checked: an integral,
  floating-point, enumeration or string-view parameter on a slot of another dynamic type
  is to be read without an error, as what the engine's coercion gives, and the callable
  is still to be invoked. The reader for a string view does not do this on a slot that
  is neither a string nor a number: \<^verbatim>\<open>lua_tostring\<close> returns \<^verbatim>\<open>NULL\<close>, line 213
  constructs the view from the null pointer, which is undefined behaviour, and the
  callable is not invoked. On the same slot the reader for an integral parameter returns
  0 and the callable is invoked.
\<close>

theorem string_view_read_of_nil:
  "FunctionWrapper_call E [] (ReturningVoid (\<lambda>args M. M[0 := 1]))
     [TStringView] [LNil] [0] [0] = ([], Inl UndefinedBehaviour)
   \<and> FunctionWrapper_call E [] (ReturningVoid (\<lambda>args M. M[0 := 1]))
       [TIntegral (TSigned 32)] [LNil] [0] [0]
     = ([Converted 0, Invoked [NInt 0]], Inr (0, [LNil], [1]))"
  by (simp add: CallHelper_void_call_def ConvertArgs_convert_def lua_tostring_def
      lua_tointeger_def index2value_def arguments_def)

end
